theory Spec2Isabelle
  imports Main "HOL-Library.Sublist"
begin

section \<open>Strings\<close>

text \<open>
  A JavaScript string is a sequence of UTF-16 code units; a code unit is modelled as a
  natural number. \<open>str\<close> turns a literal into its code units, so that
  \<open>str ''- a''\<close> is \<open>[45, 32, 97]\<close>; the line feed is code unit 10.
\<close>

type_synonym jsstring = "nat list"

definition str :: "string \<Rightarrow> jsstring" where
  "str s = map of_char s"

text \<open>
  The class \<open>\s\<close> of a regular expression, which is also what \<open>String.prototype.trim\<close>
  strips: WhiteSpace and LineTerminator of ECMAScript.
\<close>

definition isSpace :: "nat \<Rightarrow> bool" where
  "isSpace c = (c = 9 \<or> c = 10 \<or> c = 11 \<or> c = 12 \<or> c = 13 \<or> c = 32 \<or> c = 160
     \<or> c = 0x1680 \<or> (0x2000 \<le> c \<and> c \<le> 0x200A) \<or> c = 0x2028 \<or> c = 0x2029
     \<or> c = 0x202F \<or> c = 0x205F \<or> c = 0x3000 \<or> c = 0xFEFF)"

definition trim :: "jsstring \<Rightarrow> jsstring" where
  "trim s = rev (dropWhile isSpace (rev (dropWhile isSpace s)))"

text \<open>
  \<open>toLowerCase\<close>. The letters A to Z go to a to z. Two code units outside ASCII have a lower
  case with an ASCII letter in it: the Kelvin sign U+212A goes to \<open>k\<close>, and U+0130 goes to
  \<open>i\<close> followed by U+0307. Every other code unit is kept: a letter outside ASCII goes to
  letters outside ASCII, which the converter never tells apart from the original (it only
  tests lower-cased text for ASCII words, ASCII classes and whitespace).
\<close>

definition lowerUnit :: "nat \<Rightarrow> jsstring" where
  "lowerUnit c =
     (if 65 \<le> c \<and> c \<le> 90 then [c + 32]
      else if c = 0x212A then [107]
      else if c = 0x130 then [105, 0x307]
      else [c])"

definition toLowerCase :: "jsstring \<Rightarrow> jsstring" where
  "toLowerCase s = concat (map lowerUnit s)"

text \<open>\<open>s.includes(sub)\<close>.\<close>

definition includesStr :: "jsstring \<Rightarrow> jsstring \<Rightarrow> bool" where
  "includesStr s sub = sublist sub s"

text \<open>
  \<open>s.split(sep)\<close> for a separator of one code unit. The result is never the empty list, so
  the first branch of the \<open>case\<close> is never taken.
\<close>

fun splitOn :: "nat \<Rightarrow> jsstring \<Rightarrow> jsstring list" where
  "splitOn sep [] = [[]]"
| "splitOn sep (c # s) =
     (if c = sep then [] # splitOn sep s
      else (case splitOn sep s of [] \<Rightarrow> [[c]] | p # ps \<Rightarrow> (c # p) # ps))"

text \<open>\<open>parts.join(sep)\<close>.\<close>

fun joinWith :: "jsstring \<Rightarrow> jsstring list \<Rightarrow> jsstring" where
  "joinWith sep [] = []"
| "joinWith sep [x] = x"
| "joinWith sep (x # y # ys) = x @ sep @ joinWith sep (y # ys)"

text \<open>\<open>repeat(ch, n)\<close>: \<open>new Array(Math.max(0, n) + 1).join(ch)\<close>, with \<open>n\<close> a count.\<close>

definition repeat :: "jsstring \<Rightarrow> nat \<Rightarrow> jsstring" where
  "repeat ch n = concat (replicate n ch)"

text \<open>The decimal digits of a number, as a template literal prints it.\<close>

function showNat :: "nat \<Rightarrow> jsstring" where
  "showNat n = (if n < 10 then [48 + n] else showNat (n div 10) @ [48 + n mod 10])"
  by pat_completeness auto
termination
  by (relation "measure id") auto

declare showNat.simps [simp del]

subsection \<open>Global replacements\<close>

text \<open>
  \<open>s.replace(/[class]/g, f)\<close>: every code unit of the class is replaced, one by one.
\<close>

definition replaceEach :: "(nat \<Rightarrow> bool) \<Rightarrow> (nat \<Rightarrow> jsstring) \<Rightarrow> jsstring \<Rightarrow> jsstring" where
  "replaceEach p f s = concat (map (\<lambda>c. if p c then f c else [c]) s)"

text \<open>
  \<open>s.replace(/[class]+/g, f)\<close>: the matches of a greedy \<open>+\<close> under the global flag are
  the maximal runs of code units of the class, from left to right; each run \<open>m\<close> is
  replaced by \<open>f m\<close>.
\<close>

function replaceRuns :: "(nat \<Rightarrow> bool) \<Rightarrow> (jsstring \<Rightarrow> jsstring) \<Rightarrow> jsstring \<Rightarrow> jsstring" where
  "replaceRuns p f [] = []"
| "replaceRuns p f (c # s) =
     (if p c then f (c # takeWhile p s) @ replaceRuns p f (dropWhile p s)
      else c # replaceRuns p f s)"
  by pat_completeness auto
termination
  by (relation "measure (\<lambda>(p, f, s). length s)") (auto simp: length_dropWhile_le le_imp_less_Suc)

subsection \<open>The helpers of the converter\<close>

definition isMdSpecial :: "nat \<Rightarrow> bool" where
  \<comment> \<open>the class \<open>[*_`#|>\-]\<close>\<close>
  "isMdSpecial c = (c = 42 \<or> c = 95 \<or> c = 96 \<or> c = 35 \<or> c = 124 \<or> c = 62 \<or> c = 45)"

definition escapeMd :: "jsstring \<Rightarrow> jsstring" where
  "escapeMd text =
     replaceEach isMdSpecial (\<lambda>c. [92, c]) (replaceEach (\<lambda>c. c = 92) (\<lambda>c. [92, 92]) text)"

definition collapseWhitespace :: "jsstring \<Rightarrow> jsstring" where
  "collapseWhitespace s =
     replaceRuns (\<lambda>c. c = 32 \<or> c = 9 \<or> c = 12 \<or> c = 11) (\<lambda>m. [32])
       (replaceEach (\<lambda>c. c = 160) (\<lambda>c. [32]) s)"

text \<open>
  \<open>trimBlankLines\<close> is three replacements in a row.
  \<^item> \<open>/^\s+\n/\<close> (no flag): at the start of the string, the longest whitespace prefix
    that ends in a line feed and has at least one code unit before that line feed; it
    becomes one line feed. With \<open>w\<close> the whole whitespace prefix, there is a match when
    a line feed occurs in \<open>w\<close> after its first code unit, and the match ends at the last
    line feed of \<open>w\<close>.
  \<^item> \<open>/\n\s+$/\<close> (no flag): the leftmost line feed that is followed by one or more
    whitespace code units up to the end of the string; from there on the string becomes
    one line feed. Such a line feed lies in the whitespace suffix \<open>t\<close>, and it is the
    first line feed of \<open>t\<close> unless that one is the last code unit of the string.
  \<^item> \<open>/^\n+|\n+$/g\<close>: the line feeds at the start and those at the end are removed.
\<close>

definition stripLeadingBlank :: "jsstring \<Rightarrow> jsstring" where
  "stripLeadingBlank s =
     (let w = takeWhile isSpace s in
      if 10 \<in> set (tl w)
      then 10 # rev (takeWhile (\<lambda>c. c \<noteq> 10) (rev w)) @ dropWhile isSpace s
      else s)"

definition stripTrailingBlank :: "jsstring \<Rightarrow> jsstring" where
  "stripTrailingBlank s =
     (let t = rev (takeWhile isSpace (rev s));
          u = rev (dropWhile isSpace (rev s));
          a = takeWhile (\<lambda>c. c \<noteq> 10) t;
          b = dropWhile (\<lambda>c. c \<noteq> 10) t
      in if 2 \<le> length b then u @ a @ [10] else s)"

definition stripNewlines :: "jsstring \<Rightarrow> jsstring" where
  "stripNewlines s = rev (dropWhile (\<lambda>c. c = 10) (rev (dropWhile (\<lambda>c. c = 10) s)))"

definition trimBlankLines :: "jsstring \<Rightarrow> jsstring" where
  "trimBlankLines s = stripNewlines (stripTrailingBlank (stripLeadingBlank s))"

text \<open>\<open>/\n{3,}/g\<close> to two line feeds: a run of fewer than three is no match and stays.\<close>

definition normalizeLines :: "jsstring \<Rightarrow> jsstring" where
  "normalizeLines s =
     replaceRuns (\<lambda>c. c = 10) (\<lambda>m. if 3 \<le> length m then [10, 10] else m) s"

text \<open>\<open>text.replace(/\r\n?/g, '\n')\<close>: a carriage return, with the line feed after it if
  there is one, becomes one line feed.\<close>

fun normalizeEol :: "jsstring \<Rightarrow> jsstring" where
  "normalizeEol [] = []"
| "normalizeEol [c] = (if c = 13 then [10] else [c])"
| "normalizeEol (c # d # s) =
     (if c = 13 then (if d = 10 then 10 # normalizeEol s else 10 # normalizeEol (d # s))
      else c # normalizeEol (d # s))"

definition codeFence :: "jsstring \<Rightarrow> jsstring option \<Rightarrow> jsstring" where
  "codeFence text lang =
     (let fence = (if includesStr text (str ''```'') then str ''````'' else str ''```'');
          info = (case lang of None \<Rightarrow> [] | Some l \<Rightarrow> l)
      in fence @ (if info \<noteq> [] then 32 # info else []) @ [10]
         @ (if text \<noteq> [] \<and> last text = 10 then butlast text else text)
         @ [10] @ fence)"

section \<open>The document tree\<close>

text \<open>
  The nodes the HTML parser hands over: text nodes, elements (tag name as \<open>tagName\<close>
  reports it, upper case for HTML elements; attributes; child nodes), and every other
  kind of node (comments), which the converter skips.
\<close>

datatype node =
    Text jsstring
  | Other
  | Element jsstring "(jsstring \<times> jsstring) list" "node list"

fun isElement :: "node \<Rightarrow> bool" where
  "isElement (Element tag attrs kids) = True"
| "isElement _ = False"

fun tagName :: "node \<Rightarrow> jsstring" where
  "tagName (Element tag attrs kids) = tag"
| "tagName _ = []"

fun childNodes :: "node \<Rightarrow> node list" where
  "childNodes (Element tag attrs kids) = kids"
| "childNodes _ = []"

text \<open>\<open>el.children\<close>: the child nodes that are elements.\<close>

definition children :: "node \<Rightarrow> node list" where
  "children el = filter isElement (childNodes el)"

fun getAttr :: "node \<Rightarrow> jsstring \<Rightarrow> jsstring option" where
  "getAttr (Element tag attrs kids) name = map_of attrs name"
| "getAttr _ name = None"

text \<open>
  \<open>textContent\<close> of an element: the text of its descendant text nodes, in document order.
  \<open>textContentOf\<close> is only applied to elements.
\<close>

fun textContentOf :: "node \<Rightarrow> jsstring" where
  "textContentOf (Text v) = v"
| "textContentOf Other = []"
| "textContentOf (Element tag attrs kids) = concat (map textContentOf kids)"

text \<open>The element descendants of a node, in document order.\<close>

fun descendants :: "node \<Rightarrow> node list" where
  "descendants (Element tag attrs kids) =
     concat (map (\<lambda>k. (if isElement k then [k] else []) @ descendants k) kids)"
| "descendants _ = []"

text \<open>
  A type selector such as \<open>thead\<close>, in a document the HTML parser built: it matches the HTML
  element of that name, whose \<open>tagName\<close> is the name in upper case, and an element of
  another namespace (SVG, MathML) with exactly that local name, whose \<open>tagName\<close> is the
  name as it is.
\<close>

definition upperAscii :: "jsstring \<Rightarrow> jsstring" where
  "upperAscii s = map (\<lambda>c. if 97 \<le> c \<and> c \<le> 122 then c - 32 else c) s"

definition matchesType :: "jsstring \<Rightarrow> node \<Rightarrow> bool" where
  "matchesType sel d = (tagName d = upperAscii sel \<or> tagName d = sel)"

text \<open>\<open>el.querySelector(sel)\<close> for a type selector: the first descendant that matches.\<close>

definition querySelector :: "node \<Rightarrow> jsstring \<Rightarrow> node option" where
  "querySelector el sel = find (matchesType sel) (descendants el)"

text \<open>\<open>scope.querySelectorAll(':scope > tr')\<close>, and nothing when the scope is null.\<close>

definition collectRows :: "node option \<Rightarrow> node list" where
  "collectRows scope =
     (case scope of None \<Rightarrow> []
      | Some sc \<Rightarrow> filter (matchesType (str ''tr'')) (children sc))"

text \<open>The rows \<open>renderTable\<close> collects before it renders any cell.\<close>

definition tableRows :: "node \<Rightarrow> node list" where
  "tableRows table =
     (let thead = querySelector table (str ''thead'');
          tbody = querySelector table (str ''tbody'');
          tfoot = querySelector table (str ''tfoot'')
      in collectRows thead @ collectRows tbody @ collectRows tfoot
         @ (if thead = None \<and> tbody = None \<and> tfoot = None then collectRows (Some table) else []))"

definition rowCells :: "node \<Rightarrow> node list" where
  "rowCells tr = filter (\<lambda>c. tagName c = str ''TD'' \<or> tagName c = str ''TH'') (children tr)"

section \<open>Classifiers\<close>

definition blockTags :: "jsstring list" where
  "blockTags = map str
     [''P'', ''DIV'', ''SECTION'', ''ARTICLE'', ''HEADER'', ''FOOTER'', ''MAIN'', ''ASIDE'',
      ''H1'', ''H2'', ''H3'', ''H4'', ''H5'', ''H6'',
      ''PRE'', ''BLOCKQUOTE'', ''UL'', ''OL'', ''LI'', ''TABLE'', ''THEAD'', ''TBODY'',
      ''TFOOT'', ''TR'', ''TD'', ''TH'', ''HR'']"

definition isBlock :: "node \<Rightarrow> bool" where
  "isBlock el = (tagName el \<in> set blockTags)"

text \<open>
  \<open>cls.match(/(?:language|lang)-([\w#+.-]+)/)\<close>: the leftmost position where
  \<open>language-\<close> or else \<open>lang-\<close> is followed by at least one code unit of the class;
  the group is the longest run of the class from there.
\<close>

definition isLangChar :: "nat \<Rightarrow> bool" where
  "isLangChar c = ((65 \<le> c \<and> c \<le> 90) \<or> (97 \<le> c \<and> c \<le> 122) \<or> (48 \<le> c \<and> c \<le> 57)
     \<or> c = 95 \<or> c = 35 \<or> c = 43 \<or> c = 46 \<or> c = 45)"

definition langAt :: "jsstring \<Rightarrow> jsstring option" where
  "langAt s =
     (if prefix (str ''language-'') s \<and> takeWhile isLangChar (drop 9 s) \<noteq> []
      then Some (takeWhile isLangChar (drop 9 s))
      else if prefix (str ''lang-'') s \<and> takeWhile isLangChar (drop 5 s) \<noteq> []
      then Some (takeWhile isLangChar (drop 5 s))
      else None)"

fun matchLang :: "jsstring \<Rightarrow> jsstring option" where
  "matchLang [] = None"
| "matchLang (c # s) = (case langAt (c # s) of Some m \<Rightarrow> Some m | None \<Rightarrow> matchLang s)"

definition getCodeLang :: "node \<Rightarrow> jsstring option" where
  "getCodeLang el =
     matchLang (toLowerCase (case getAttr el (str ''class'') of None \<Rightarrow> [] | Some v \<Rightarrow> v))"

text \<open>
  \<open>styleHas\<close>: the declarations of the lower-cased style, split at \<open>;\<close>, each split at
  \<open>:\<close> with the first two pieces trimmed; a later declaration of a property overwrites
  an earlier one. The regular expression is passed as its test.
\<close>

definition styleMap :: "jsstring \<Rightarrow> (jsstring \<rightharpoonup> jsstring)" where
  "styleMap st =
     foldl (\<lambda>m pair.
        let kv = map trim (splitOn 58 pair);
            k = hd kv;
            v = (if 2 \<le> length kv then kv ! 1 else [])
        in if k \<noteq> [] then m(k \<mapsto> v) else m)
       Map.empty (splitOn 59 st)"

definition styleHas :: "node \<Rightarrow> jsstring \<Rightarrow> (jsstring \<Rightarrow> bool) \<Rightarrow> bool" where
  "styleHas el prop test =
     (let st = toLowerCase (case getAttr el (str ''style'') of None \<Rightarrow> [] | Some v \<Rightarrow> v)
      in case styleMap st prop of None \<Rightarrow> False | Some v \<Rightarrow> v \<noteq> [] \<and> test v)"

definition reBold :: "jsstring \<Rightarrow> bool" where
  \<comment> \<open>\<open>/(bold|[6-9]00)/\<close>\<close>
  "reBold v = (includesStr v (str ''bold'')
     \<or> list_ex (\<lambda>d. includesStr v [d, 48, 48]) [54, 55, 56, 57])"

definition reItalic :: "jsstring \<Rightarrow> bool" where
  \<comment> \<open>\<open>/(italic|oblique)/\<close>\<close>
  "reItalic v = (includesStr v (str ''italic'') \<or> includesStr v (str ''oblique''))"

definition reStrike :: "jsstring \<Rightarrow> bool" where
  \<comment> \<open>\<open>/line-through/\<close>\<close>
  "reStrike v = includesStr v (str ''line-through'')"

definition isBoldLike :: "node \<Rightarrow> bool" where
  "isBoldLike el = (tagName el = str ''B'' \<or> tagName el = str ''STRONG''
     \<or> styleHas el (str ''font-weight'') reBold)"

definition isItalicLike :: "node \<Rightarrow> bool" where
  "isItalicLike el = (tagName el = str ''I'' \<or> tagName el = str ''EM''
     \<or> styleHas el (str ''font-style'') reItalic)"

definition isStrikeLike :: "node \<Rightarrow> bool" where
  "isStrikeLike el = (tagName el = str ''S'' \<or> tagName el = str ''DEL''
     \<or> tagName el = str ''STRIKE'' \<or> styleHas el (str ''text-decoration'') reStrike)"

text \<open>
  The style attribute read declaration by declaration, to compare the loop of \<open>styleMap\<close>
  with. The declarations are the parts between semicolons; each is split at its colons, and
  its name is the first piece and its value the second (empty if there is none), both
  trimmed. The value a style assigns to a property is that of the last declaration with
  that name, if there is one.
\<close>

definition parseDeclaration :: "jsstring \<Rightarrow> jsstring \<times> jsstring" where
  "parseDeclaration pair =
     (let kv = map trim (splitOn 58 pair)
      in (hd kv, if 2 \<le> length kv then kv ! 1 else []))"

fun lastValue :: "jsstring \<Rightarrow> (jsstring \<times> jsstring) list \<Rightarrow> jsstring option" where
  "lastValue prop [] = None"
| "lastValue prop (d # ds) =
     (case lastValue prop ds of
        Some v \<Rightarrow> Some v
      | None \<Rightarrow> if fst d = prop then Some (snd d) else None)"

definition assigned :: "jsstring \<Rightarrow> jsstring \<Rightarrow> jsstring option" where
  "assigned st prop = lastValue prop (map parseDeclaration (splitOn 59 st))"

section \<open>The environment\<close>

text \<open>
  What the converter takes from the browser. \<open>parseRoot\<close> is
  \<open>new DOMParser().parseFromString(text, 'text/html').getElementById('__root__')\<close>:
  the element found, or \<open>None\<close> for null. \<open>newURL href base\<close> is
  \<open>new URL(href, base).href\<close>, or \<open>None\<close> when the constructor throws.
\<close>

record browser =
  parseRoot :: "jsstring \<Rightarrow> node option"
  newURL :: "jsstring \<Rightarrow> jsstring \<Rightarrow> jsstring option"

text \<open>
  \<open>Opts\<close> and \<open>Ctx\<close>. Both have the optional field \<open>baseUrl\<close>, so the context is
  written as the extension of the options by its own three fields.
\<close>

record opts =
  baseUrl :: "jsstring option"

record ctx = opts +
  listDepth :: nat
  orderedStack :: "bool list"
  orderedIndex :: "nat list"

definition absolutizeUrl :: "browser \<Rightarrow> jsstring \<Rightarrow> jsstring option \<Rightarrow> jsstring" where
  "absolutizeUrl B href base =
     (case base of
        None \<Rightarrow> href
      | Some b \<Rightarrow>
          if b = [] then href
          else (case newURL B href b of None \<Rightarrow> href | Some u \<Rightarrow> u))"

section \<open>The renderer\<close>

text \<open>\<open>title ? ' "' + escapeMd(title) + '"' : ''\<close>; code unit 34 is the double quote.\<close>

definition titlePart :: "jsstring option \<Rightarrow> jsstring" where
  "titlePart title =
     (case title of
        None \<Rightarrow> []
      | Some t \<Rightarrow> if t = [] then [] else [32, 34] @ escapeMd t @ [34])"

text \<open>\<open>getAttr(el, name) || ''\<close>.\<close>

definition attrOrEmpty :: "node \<Rightarrow> jsstring \<Rightarrow> jsstring" where
  "attrOrEmpty el name = (case getAttr el name of None \<Rightarrow> [] | Some v \<Rightarrow> v)"

text \<open>\<open>/^H[1-6]$/.test(tag)\<close>.\<close>

definition isHeading :: "jsstring \<Rightarrow> bool" where
  "isHeading tag = (length tag = 2 \<and> tag ! 0 = 72 \<and> 49 \<le> tag ! 1 \<and> tag ! 1 \<le> 54)"

text \<open>The text of a table cell: \<open>collapseWhitespace(md).replace(/\n+/g, ' ').trim()\<close>.\<close>

definition cellText :: "jsstring \<Rightarrow> jsstring" where
  "cellText md = trim (replaceRuns (\<lambda>c. c = 10) (\<lambda>m. [32]) (collapseWhitespace md))"

definition rowLine :: "jsstring list \<Rightarrow> jsstring" where
  "rowLine cols = str ''| '' @ joinWith (str '' | '') cols @ str '' |''"

lemma size_childNodes: "x \<in> set (childNodes el) \<Longrightarrow> size x < size el"
  by (cases el) (auto simp: less_Suc_eq_le size_list_estimation')

lemma size_children: "x \<in> set (children el) \<Longrightarrow> size x < size el"
  by (simp add: children_def size_childNodes)

lemma size_descendants: "x \<in> set (descendants el) \<Longrightarrow> size x < size el"
proof (induction el arbitrary: x rule: descendants.induct)
  case (1 tag attrs kids)
  then obtain k where k: "k \<in> set kids" and x: "x = k \<or> x \<in> set (descendants k)"
    by (auto split: if_splits)
  from x k "1.IH" have "size x \<le> size k"
    by (auto simp: less_imp_le)
  moreover from k have "size k < size (Element tag attrs kids)"
    using size_childNodes [of k "Element tag attrs kids"] by simp
  ultimately show ?case by simp
qed simp_all

lemma size_querySelector: "querySelector el tag = Some x \<Longrightarrow> size x < size el"
  by (auto simp: querySelector_def matchesType_def upperAscii_def find_Some_iff intro: size_descendants)

lemma size_collectRows: "x \<in> set (collectRows (Some s)) \<Longrightarrow> size x < size s"
  by (auto simp: collectRows_def size_children)

lemma size_collectRows_query:
  "x \<in> set (collectRows (querySelector table tag)) \<Longrightarrow> size x < size table"
proof (cases "querySelector table tag")
  case None
  assume "x \<in> set (collectRows (querySelector table tag))"
  with None show ?thesis by (simp add: collectRows_def)
next
  case (Some s)
  assume "x \<in> set (collectRows (querySelector table tag))"
  with Some have "size x < size s" by (simp add: size_collectRows)
  moreover from Some have "size s < size table" by (rule size_querySelector)
  ultimately show ?thesis by simp
qed

lemma size_tableRows: "x \<in> set (tableRows table) \<Longrightarrow> size x < size table"
  unfolding tableRows_def Let_def
  by (auto dest: size_collectRows_query size_collectRows split: if_splits)

lemma size_rowCells: "x \<in> set (rowCells tr) \<Longrightarrow> size x < size tr"
  by (simp add: rowCells_def size_children)

lemma size_tableCell:
  "td \<in> set (rowCells tr) \<Longrightarrow> tr \<in> set (tableRows table) \<Longrightarrow> size td < size table"
  using size_rowCells [of td tr] size_tableRows [of tr table] by simp

text \<open>
  The five renderers call each other, so they are one recursive definition; every call
  goes to a node of smaller size, or to the same node from \<open>renderNode\<close>. A \<open>for\<close> loop is
  a \<open>foldl\<close> over the nodes it visits, with the variables the loop updates as accumulator:
  the output string; in \<open>renderList\<close> the context \<open>next\<close>, whose counter the loop overwrites
  in place, and the lines pushed so far; in \<open>renderTable\<close> the grid and the header cells.
  The guard \<open>if (!node)\<close> of \<open>renderNode\<close> has no branch here: a list of child nodes holds
  no null.
\<close>

function renderNode :: "browser \<Rightarrow> node \<Rightarrow> ctx \<Rightarrow> jsstring"
  and renderInlineChildren :: "browser \<Rightarrow> node \<Rightarrow> ctx \<Rightarrow> jsstring"
  and renderList :: "browser \<Rightarrow> node \<Rightarrow> ctx \<Rightarrow> bool \<Rightarrow> jsstring"
  and renderListItem :: "browser \<Rightarrow> node \<Rightarrow> ctx \<Rightarrow> jsstring"
  and renderTable :: "browser \<Rightarrow> node \<Rightarrow> ctx \<Rightarrow> jsstring"
where
  "renderNode B (Text v) ctx =
     escapeMd (replaceRuns isSpace (\<lambda>m. if 10 \<in> set m then [10] else [32]) v)"
| "renderNode B Other ctx = []"
| "renderNode B (Element tag attrs kids) ctx =
     (let el = Element tag attrs kids in
      if tag = str ''SCRIPT'' \<or> tag = str ''STYLE'' \<or> tag = str ''NOSCRIPT''
         \<or> tag = str ''META'' \<or> tag = str ''LINK'' then []
      else if tag = str ''BR'' then str ''  \<newline>''
      else if tag = str ''HR'' then str ''\<newline>\<newline>---\<newline>\<newline>''
      else if tag = str ''IMG'' then
        (let alt = attrOrEmpty el (str ''alt'');
             src = attrOrEmpty el (str ''src'');
             title = getAttr el (str ''title'');
             url = absolutizeUrl B src (baseUrl ctx)
         in str ''!['' @ escapeMd alt @ str '']('' @ url @ titlePart title @ str '')'')
      else if tag = str ''A'' then
        (let href = attrOrEmpty el (str ''href'');
             title = getAttr el (str ''title'');
             inner = trimBlankLines (renderInlineChildren B el ctx);
             text = (if inner \<noteq> [] then inner else attrOrEmpty el (str ''href''));
             url = absolutizeUrl B href (baseUrl ctx)
         in str ''['' @ text @ str '']('' @ url @ titlePart title @ str '')'')
      else if tag = str ''CODE'' then
        (let raw = textContentOf el;
             ticks = (if includesStr raw (str ''`'') then str ''``'' else str ''`'')
         in ticks @ raw @ ticks)
      else if tag = str ''PRE'' then
        (let code = querySelector el (str ''code'');
             text = (case code of None \<Rightarrow> textContentOf el | Some c \<Rightarrow> textContentOf c);
             text = normalizeEol text;
             lang = (case code of None \<Rightarrow> None | Some c \<Rightarrow> getCodeLang c)
         in str ''\<newline>\<newline>'' @ codeFence text lang @ str ''\<newline>\<newline>'')
      else if isHeading tag then
        (let level = tag ! 1 - 48;
             hashes = repeat (str ''#'') (max 1 (min 6 level));
             content = trimBlankLines (renderInlineChildren B el ctx)
         in str ''\<newline>\<newline>'' @ hashes @ str '' '' @ content @ str ''\<newline>\<newline>'')
      else if tag = str ''BLOCKQUOTE'' then
        (let inner = trimBlankLines (renderInlineChildren B el ctx);
             prefixed = joinWith [10] (map (\<lambda>l. str ''> '' @ l) (splitOn 10 inner))
         in str ''\<newline>\<newline>'' @ prefixed @ str ''\<newline>\<newline>'')
      else if tag = str ''UL'' then
        str ''\<newline>'' @ renderList B el ctx False @ str ''\<newline>\<newline>''
      else if tag = str ''OL'' then
        str ''\<newline>'' @ renderList B el ctx True @ str ''\<newline>\<newline>''
      else if tag = str ''TABLE'' then
        str ''\<newline>\<newline>'' @ renderTable B el ctx @ str ''\<newline>\<newline>''
      else if isBoldLike el \<or> isItalicLike el \<or> isStrikeLike el then
        (let content = renderInlineChildren B el ctx;
             out = content;
             out = (if isBoldLike el then str ''**'' @ out @ str ''**'' else out);
             out = (if isItalicLike el then str ''*'' @ out @ str ''*'' else out);
             out = (if isStrikeLike el then str ''~~'' @ out @ str ''~~'' else out)
         in out)
      else if isBlock el then
        (let inner = trimBlankLines (renderInlineChildren B el ctx)
         in if inner = [] then []
            else str ''\<newline>\<newline>'' @ inner @ str ''\<newline>\<newline>'')
      else renderInlineChildren B el ctx)"
| "renderInlineChildren B el ctx =
     foldl (\<lambda>out child. out @ renderNode B child ctx) [] (childNodes el)"
| "renderList B el ctx ordered =
     (let items = filter (\<lambda>ch. tagName ch = str ''LI'') (children el);
          next0 = ctx\<lparr>listDepth := listDepth ctx + 1,
                      orderedStack := orderedStack ctx @ [ordered],
                      orderedIndex := orderedIndex ctx @ [0]\<rparr>;
          fin = foldl (\<lambda>acc li. case acc of (next, out) \<Rightarrow>
                  let idx = orderedIndex next ! (length (orderedIndex next) - 1) + 1;
                      next = next\<lparr>orderedIndex :=
                               (orderedIndex next)[length (orderedIndex next) - 1 := idx]\<rparr>;
                      bullet = (if ordered then showNat idx @ str ''. '' else str ''- '');
                      contentMd = trimBlankLines (renderListItem B li next);
                      lines = splitOn 10 contentMd;
                      indent = repeat (str ''  '') (listDepth ctx);
                      first = indent @ bullet @ hd lines;
                      rest = map (\<lambda>l. indent @ str ''  '' @ l) (tl lines)
                  in (next, out @ [joinWith [10] (first # rest)]))
                (next0, []) items
      in joinWith [10] (snd fin))"
| "renderListItem B li ctx =
     (let parts = foldl (\<lambda>parts child.
                    let md = renderNode B child ctx
                    in if md = [] then parts else parts @ [md])
                  [] (childNodes li)
      in normalizeLines (joinWith [10] parts))"
| "renderTable B table ctx =
     (let rows = tableRows table;
          fin = foldl (\<lambda>acc tr. case acc of (grid, headerCells) \<Rightarrow>
                  let cells = rowCells tr;
                      texts = map (\<lambda>td. cellText (trimBlankLines (renderInlineChildren B td ctx)))
                                cells;
                      headerCells =
                        (if headerCells = None \<and> list_ex (\<lambda>c. tagName c = str ''TH'') cells
                         then Some texts else headerCells)
                  in (grid @ [texts], headerCells))
                ([], None) rows;
          grid = fst fin;
          headerCells = snd fin;
          head = (case headerCells of Some h \<Rightarrow> h
                  | None \<Rightarrow> (case grid of [] \<Rightarrow> [] | g # gs \<Rightarrow> g));
          body = (case headerCells of Some h \<Rightarrow> grid | None \<Rightarrow> drop 1 grid)
      in if length head = 0 then []
         else (let sep = map (\<lambda>h. str ''---'') head;
                   lines = [rowLine head, rowLine sep] @ map rowLine body
               in joinWith [10] lines))"
  by pat_completeness auto

termination
  by (relation "measure (\<lambda>x. case x of
          Inl (Inl (B, n, c)) \<Rightarrow> 2 * size n + 1
        | Inl (Inr (B, el, c)) \<Rightarrow> 2 * size el
        | Inr (Inl (B, el, c, ordered)) \<Rightarrow> 2 * size el
        | Inr (Inr (Inl (B, li, c))) \<Rightarrow> 2 * size li
        | Inr (Inr (Inr (B, t, c))) \<Rightarrow> 2 * size t)")
    (auto dest: size_childNodes size_children size_tableCell)

lemmas render_simps = renderNode.simps renderInlineChildren.simps renderList.simps
  renderListItem.simps renderTable.simps

declare render_simps [simp del]

section \<open>The entry point\<close>

text \<open>The document text handed to the parser: the fragment wrapped in a root element.\<close>

definition wrapHtml :: "jsstring \<Rightarrow> jsstring" where
  "wrapHtml html =
     str ''<!doctype html><meta charset='' @ [34] @ str ''utf-8'' @ [34] @ str ''><div id=''
     @ [34] @ str ''__root__'' @ [34] @ str ''>'' @ html @ str ''</div>''"

definition htmlToMarkdown :: "browser \<Rightarrow> jsstring \<Rightarrow> opts \<Rightarrow> jsstring" where
  "htmlToMarkdown B html opts =
     (if html = [] \<or> trim html = [] then []
      else case parseRoot B (wrapHtml html) of
        None \<Rightarrow> []
      | Some root \<Rightarrow>
          (let ctx = \<lparr>baseUrl = baseUrl opts, listDepth = 0, orderedStack = [],
                       orderedIndex = []\<rparr>;
               out = foldl (\<lambda>out child. out @ renderNode B child ctx) [] (childNodes root);
               out = normalizeLines (trimBlankLines out)
           in trim out @ str ''\<newline>''))"

text \<open>A browser whose parser knows one document: the fragment \<open>html\<close>, wrapped, parses to
  a root element with the child nodes \<open>kids\<close>. Its \<open>URL\<close> constructor always throws.\<close>

definition browserFor :: "jsstring \<Rightarrow> node list \<Rightarrow> browser" where
  "browserFor html kids =
     \<lparr>parseRoot = (\<lambda>text. if text = wrapHtml html
                        then Some (Element (str ''DIV'') [(str ''id'', str ''__root__'')] kids)
                        else None),
      newURL = (\<lambda>href base. None)\<rparr>"

text \<open>
  A browser at a document in which \<open>getElementById\<close> finds no root element. The HTML
  parser builds such a document from the fragment \<open><frameset>\<close>: the tree builder meets
  the start tag in the body while the frameset-ok flag is still set, and removes the body
  element, with the root element in it, from the document.
\<close>

definition browserWithoutRoot :: browser where
  "browserWithoutRoot = \<lparr>parseRoot = (\<lambda>text. None), newURL = (\<lambda>href base. None)\<rparr>"

text \<open>A browser whose \<open>URL\<close> constructor resolves \<open>/x\<close> against \<open>https://h/\<close>, and
  throws on everything else.\<close>

definition browserAtH :: browser where
  "browserAtH =
     \<lparr>parseRoot = (\<lambda>text. None),
      newURL = (\<lambda>href base. if href = str ''/x'' \<and> base = str ''https://h/''
                              then Some (str ''https://h/x'') else None)\<rparr>"

section \<open>The shapes the claims speak of\<close>

text \<open>A string that ends with a line feed and has no second line feed right before it.\<close>

definition endsWithOneNewline :: "jsstring \<Rightarrow> bool" where
  "endsWithOneNewline s = (s \<noteq> [] \<and> last s = 10 \<and> (butlast s = [] \<or> last (butlast s) \<noteq> 10))"

text \<open>A string whose first line, the part before its first line feed, is empty or all
  whitespace.\<close>

definition beginsWithBlankLine :: "jsstring \<Rightarrow> bool" where
  "beginsWithBlankLine s = (10 \<in> set s \<and> (\<forall>c\<in>set (takeWhile (\<lambda>c. c \<noteq> 10) s). isSpace c))"

text \<open>
  The tags \<open>renderNode\<close> handles before it asks the emphasis classifiers: the ignored
  tags, \<open>br\<close>, \<open>hr\<close>, \<open>img\<close>, \<open>a\<close>, \<open>code\<close>, \<open>pre\<close>, the headings, \<open>blockquote\<close>, the
  lists and \<open>table\<close>.
\<close>

definition dispatchedByTag :: "jsstring \<Rightarrow> bool" where
  "dispatchedByTag tag =
     (tag \<in> set (map str [''SCRIPT'', ''STYLE'', ''NOSCRIPT'', ''META'', ''LINK'', ''BR'', ''HR'',
         ''IMG'', ''A'', ''CODE'', ''PRE'', ''BLOCKQUOTE'', ''UL'', ''OL'', ''TABLE''])
      \<or> isHeading tag)"

text \<open>A marker put on both sides of a string, when the flag is set.\<close>

definition wrapIf :: "bool \<Rightarrow> jsstring \<Rightarrow> jsstring \<Rightarrow> jsstring" where
  "wrapIf b marker s = (if b then marker @ s @ marker else s)"

text \<open>The text a \<open>pre\<close> element is rendered from: that of its first \<open>code\<close> descendant, or
  else its own.\<close>

definition preText :: "node \<Rightarrow> jsstring" where
  "preText el =
     (case querySelector el (str ''code'') of
        None \<Rightarrow> textContentOf el
      | Some c \<Rightarrow> textContentOf c)"

text \<open>
  What it means that the string \<open>href\<close>, under the base URL \<open>base\<close>, ends up as \<open>url\<close>:
  \<open>absolutizeUrl\<close> returns \<open>url\<close>; every image whose \<open>src\<close> attribute is \<open>href\<close> renders
  with the target \<open>url\<close>; and every link whose \<open>href\<close> attribute is \<open>href\<close> renders with
  the target \<open>url\<close>, its text being the trimmed inline content or, if that is empty, the
  attribute as it is.
\<close>

definition resolvesTo :: "browser \<Rightarrow> jsstring \<Rightarrow> jsstring option \<Rightarrow> jsstring \<Rightarrow> bool" where
  "resolvesTo B href base url =
     (absolutizeUrl B href base = url
      \<and> (\<forall>attrs kids ctx.
            baseUrl ctx = base \<and> attrOrEmpty (Element (str ''IMG'') attrs kids) (str ''src'') = href
            \<longrightarrow> renderNode B (Element (str ''IMG'') attrs kids) ctx
                = str ''!['' @ escapeMd (attrOrEmpty (Element (str ''IMG'') attrs kids) (str ''alt''))
                  @ str '']('' @ url
                  @ titlePart (getAttr (Element (str ''IMG'') attrs kids) (str ''title''))
                  @ str '')'')
      \<and> (\<forall>attrs kids ctx.
            baseUrl ctx = base \<and> attrOrEmpty (Element (str ''A'') attrs kids) (str ''href'') = href
            \<longrightarrow> renderNode B (Element (str ''A'') attrs kids) ctx
                = str ''[''
                  @ (if trimBlankLines (renderInlineChildren B (Element (str ''A'') attrs kids) ctx) = []
                     then href
                     else trimBlankLines (renderInlineChildren B (Element (str ''A'') attrs kids) ctx))
                  @ str '']('' @ url
                  @ titlePart (getAttr (Element (str ''A'') attrs kids) (str ''title''))
                  @ str '')''))"

text \<open>
  The list loop in closed form. \<open>nextCtx ctx ordered n\<close> is the context the \<open>n\<close>-th item is
  rendered under: one level deeper, with \<open>n\<close> as the running counter of this list.
  \<open>listItemText\<close> is what the loop pushes for the \<open>n\<close>-th item, and \<open>listItems\<close> are the
  direct \<open>li\<close> children the loop runs over.
\<close>

definition nextCtx :: "ctx \<Rightarrow> bool \<Rightarrow> nat \<Rightarrow> ctx" where
  "nextCtx ctx ordered n =
     ctx\<lparr>listDepth := listDepth ctx + 1, orderedStack := orderedStack ctx @ [ordered],
         orderedIndex := orderedIndex ctx @ [n]\<rparr>"

definition listItemText :: "browser \<Rightarrow> ctx \<Rightarrow> bool \<Rightarrow> nat \<Rightarrow> node \<Rightarrow> jsstring" where
  "listItemText B ctx ordered n li =
     (let bullet = (if ordered then showNat n @ str ''. '' else str ''- '');
          lines = splitOn 10 (trimBlankLines (renderListItem B li (nextCtx ctx ordered n)));
          indent = repeat (str ''  '') (listDepth ctx)
      in joinWith [10] ((indent @ bullet @ hd lines) # map (\<lambda>l. indent @ str ''  '' @ l) (tl lines)))"

definition listItems :: "node \<Rightarrow> node list" where
  "listItems el = filter (\<lambda>ch. tagName ch = str ''LI'') (children el)"

text \<open>The last two statements of \<open>htmlToMarkdown\<close>, applied to the concatenated output.\<close>

definition finish :: "jsstring \<Rightarrow> jsstring" where
  "finish out = trim (normalizeLines (trimBlankLines out)) @ [10]"

text \<open>The context \<open>htmlToMarkdown\<close> starts from.\<close>

definition initialCtx :: "opts \<Rightarrow> ctx" where
  "initialCtx opts =
     \<lparr>baseUrl = baseUrl opts, listDepth = 0, orderedStack = [], orderedIndex = []\<rparr>"

text \<open>
  The table loop in closed form: the texts of the cells of a row, the rows that hold a
  header cell, the row the header is taken from (the first row with a header cell, or else
  the first row), and the rows emitted after the separator (all the rows when a row with a
  header cell was found, or else all but the first).
\<close>

definition cellTexts :: "browser \<Rightarrow> ctx \<Rightarrow> node \<Rightarrow> jsstring list" where
  "cellTexts B ctx tr =
     map (\<lambda>td. cellText (trimBlankLines (renderInlineChildren B td ctx))) (rowCells tr)"

definition hasHeaderCell :: "node \<Rightarrow> bool" where
  "hasHeaderCell tr = list_ex (\<lambda>c. tagName c = str ''TH'') (rowCells tr)"

definition headerRow :: "node \<Rightarrow> node option" where
  "headerRow table =
     (case find hasHeaderCell (tableRows table) of
        Some tr \<Rightarrow> Some tr
      | None \<Rightarrow> (case tableRows table of [] \<Rightarrow> None | tr # trs \<Rightarrow> Some tr))"

definition bodyRows :: "node \<Rightarrow> node list" where
  "bodyRows table =
     (if list_ex hasHeaderCell (tableRows table) then tableRows table
      else drop 1 (tableRows table))"

definition tableHead :: "browser \<Rightarrow> node \<Rightarrow> ctx \<Rightarrow> jsstring list" where
  "tableHead B table ctx = (case headerRow table of None \<Rightarrow> [] | Some tr \<Rightarrow> cellTexts B ctx tr)"

definition tableBody :: "browser \<Rightarrow> node \<Rightarrow> ctx \<Rightarrow> jsstring list list" where
  "tableBody B table ctx = map (cellTexts B ctx) (bodyRows table)"

section \<open>Facts about the string helpers\<close>

lemma dropWhile_all_iff: "(\<forall>x\<in>set (dropWhile P xs). P x) \<longleftrightarrow> (\<forall>x\<in>set xs. P x)"
  by (induction xs) auto

lemma trim_empty_iff: "trim s = [] \<longleftrightarrow> (\<forall>c\<in>set s. isSpace c)"
  by (simp add: trim_def dropWhile_all_iff)

lemma dropEnd_last: "rev (dropWhile P (rev xs)) \<noteq> [] \<Longrightarrow> \<not> P (last (rev (dropWhile P (rev xs))))"
  by (simp add: last_rev hd_dropWhile)

lemma dropEnd_prefix: "prefix (rev (dropWhile P (rev xs))) xs"
  by (metis rev_rev_ident suffix_to_prefix suffix_dropWhile)

lemma dropEnd_hd:
  assumes "xs \<noteq> []" "\<not> P (hd xs)"
  shows "rev (dropWhile P (rev xs)) \<noteq> [] \<and> hd (rev (dropWhile P (rev xs))) = hd xs"
proof -
  from assms obtain x ys where xs: "xs = x # ys" and x: "\<not> P x" by (cases xs) auto
  have "dropWhile P (rev ys @ [x]) = dropWhile P (rev ys) @ [x]"
    using x by (simp add: dropWhile_append)
  then show ?thesis using xs by simp
qed

lemma trim_not_space_last: "trim s \<noteq> [] \<Longrightarrow> \<not> isSpace (last (trim s))"
  unfolding trim_def by (rule dropEnd_last)

lemma trim_not_space_hd:
  assumes "trim s \<noteq> []"
  shows "\<not> isSpace (hd (trim s))"
proof -
  let ?t = "dropWhile isSpace s"
  have "?t = [] \<Longrightarrow> trim s = []" unfolding trim_def by (simp only: rev.simps dropWhile.simps)
  with assms have t: "?t \<noteq> []" by blast
  then have h: "\<not> isSpace (hd ?t)" by (rule hd_dropWhile)
  from dropEnd_hd [of ?t isSpace, OF t h] show ?thesis using h by (simp add: trim_def)
qed

lemma sublist_trim_self: "sublist (trim s) s"
proof -
  have "sublist (trim s) (dropWhile isSpace s)"
    unfolding trim_def by (rule prefix_imp_sublist) (rule dropEnd_prefix)
  moreover have "sublist (dropWhile isSpace s) s"
    by (rule suffix_imp_sublist) (rule suffix_dropWhile)
  ultimately show ?thesis by (rule sublist_order.order_trans)
qed

lemma replaceRuns_head:
  "s = [] \<or> \<not> p (hd s) \<Longrightarrow> replaceRuns p f s = [] \<or> \<not> p (hd (replaceRuns p f s))"
  by (cases s) auto

lemma no3_app: "X = [] \<or> hd X \<noteq> (10::nat) \<Longrightarrow> \<not> sublist [10, 10, 10] X \<Longrightarrow>
   \<not> sublist [10, 10, 10] (10 # X) \<and> \<not> sublist [10, 10, 10] (10 # 10 # X)"
  by (cases X) (auto simp: sublist_Cons_right)

lemma normalizeLines_no3: "\<not> sublist [10, 10, 10] (normalizeLines s)"
  unfolding normalizeLines_def
proof (induction "\<lambda>c::nat. c = 10" "\<lambda>m::nat list. if 3 \<le> length m then [10, 10] else m" s rule: replaceRuns.induct)
  case 1
  then show ?case by simp
next
  case (2 c s)
  let ?R = "replaceRuns (\<lambda>c. c = 10) (\<lambda>m. if 3 \<le> length m then [10, 10] else m)"
  show ?case
  proof (cases "c = 10")
    case False
    with 2 show ?thesis by (simp add: sublist_Cons_right)
  next
    case True
    let ?X = "?R (dropWhile (\<lambda>c. c = 10) s)"
    have "dropWhile (\<lambda>c. c = 10) s = [] \<or> \<not> hd (dropWhile (\<lambda>c. c = 10) s) = 10"
      using hd_dropWhile [of "\<lambda>c. c = 10" s] by blast
    then have X: "?X = [] \<or> hd ?X \<noteq> 10" by (rule replaceRuns_head)
    from 2 True have n: "\<not> sublist [10, 10, 10] ?X" by simp
    have tw: "takeWhile (\<lambda>c. c = 10) s = replicate (length (takeWhile (\<lambda>c. c = 10) s)) 10"
      by (rule replicate_length_same [symmetric]) (auto dest: set_takeWhileD)
    have "(if 3 \<le> length (c # takeWhile (\<lambda>c. c = 10) s) then [10, 10] else c # takeWhile (\<lambda>c. c = 10) s)
          = [10] \<or>
          (if 3 \<le> length (c # takeWhile (\<lambda>c. c = 10) s) then [10, 10] else c # takeWhile (\<lambda>c. c = 10) s)
          = [10, 10]"
    proof (cases "length (takeWhile (\<lambda>c. c = 10) s)")
      case 0
      with True show ?thesis by simp
    next
      case (Suc k)
      show ?thesis
      proof (cases k)
        case 0
        with Suc tw have "takeWhile (\<lambda>c. c = 10) s = [10]" by simp
        with True show ?thesis by simp
      next
        case (Suc j)
        with \<open>length (takeWhile (\<lambda>c. c = 10) s) = Suc k\<close> show ?thesis by simp
      qed
    qed
    with no3_app [OF X n] True show ?thesis by auto
  qed
qed

lemma no3_snoc:
  assumes "\<not> sublist [10, 10, 10] t" "t = [] \<or> last t \<noteq> (10::nat)"
  shows "\<not> sublist [10, 10, 10] (t @ [10])"
proof
  assume "sublist [10, 10, 10] (t @ [10])"
  then have "sublist (rev [10, 10, 10]) (rev (t @ [10]))" by (simp only: sublist_rev)
  then have "prefix [10, 10, 10] (10 # rev t) \<or> sublist [10, 10, 10] (rev t)"
    by (simp add: sublist_Cons_right)
  moreover have "\<not> sublist [10, 10, 10] (rev t)"
    using assms(1) sublist_rev [of "[10, 10, 10]" t] by simp
  ultimately have "prefix [10, 10] (rev t)" by simp
  then obtain r where "rev t = 10 # r" by (cases "rev t") auto
  then have "t \<noteq> [] \<and> last t = 10"
    using last_rev [of "rev t"] by auto
  with assms(2) show False by simp
qed

lemma final_no3: "\<not> sublist [10, 10, 10] (trim (normalizeLines x) @ [10])"
proof -
  let ?y = "normalizeLines x"
  have "\<not> sublist [10, 10, 10] (trim ?y)"
    using normalizeLines_no3 [of x] sublist_trim_self [of ?y] sublist_order.order_trans
    by blast
  moreover have "trim ?y = [] \<or> last (trim ?y) \<noteq> 10"
    using trim_not_space_last [of ?y] by (auto simp: isSpace_def)
  ultimately show ?thesis by (rule no3_snoc)
qed

lemma htmlToMarkdown_cases:
  "htmlToMarkdown B html opts = [] \<or> (\<exists>x. htmlToMarkdown B html opts = trim (normalizeLines x) @ [10])"
  by (auto simp: htmlToMarkdown_def Let_def str_def split: option.splits)

section \<open>Facts about the dispatcher\<close>

lemma undispatched_facts:
  assumes "\<not> dispatchedByTag tag"
  shows "tag \<noteq> str ''SCRIPT''" "tag \<noteq> str ''STYLE''" "tag \<noteq> str ''NOSCRIPT''"
    "tag \<noteq> str ''META''" "tag \<noteq> str ''LINK''" "tag \<noteq> str ''BR''" "tag \<noteq> str ''HR''"
    "tag \<noteq> str ''IMG''" "tag \<noteq> str ''A''" "tag \<noteq> str ''CODE''" "tag \<noteq> str ''PRE''"
    "\<not> isHeading tag" "tag \<noteq> str ''BLOCKQUOTE''" "tag \<noteq> str ''UL''" "tag \<noteq> str ''OL''"
    "tag \<noteq> str ''TABLE''"
  using assms unfolding dispatchedByTag_def by simp_all

lemma renderNode_undispatched:
  assumes "\<not> dispatchedByTag tag"
  shows "renderNode B (Element tag attrs kids) ctx =
     (let el = Element tag attrs kids in
      if isBoldLike el \<or> isItalicLike el \<or> isStrikeLike el then
        wrapIf (isStrikeLike el) (str ''~~'') (wrapIf (isItalicLike el) (str ''*'')
          (wrapIf (isBoldLike el) (str ''**'') (renderInlineChildren B el ctx)))
      else if isBlock el then
        (let inner = trimBlankLines (renderInlineChildren B el ctx)
         in if inner = [] then [] else str ''\<newline>\<newline>'' @ inner @ str ''\<newline>\<newline>'')
      else renderInlineChildren B el ctx)"
  by (simp only: renderNode.simps Let_def undispatched_facts [OF assms] simp_thms if_False wrapIf_def)

lemma emphasis_render:
  assumes "\<not> dispatchedByTag tag" and "el = Element tag attrs kids"
  shows "isBoldLike el \<or> isItalicLike el \<or> isStrikeLike el \<Longrightarrow>
    renderNode B el ctx
      = wrapIf (isStrikeLike el) (str ''~~'') (wrapIf (isItalicLike el) (str ''*'')
          (wrapIf (isBoldLike el) (str ''**'') (renderInlineChildren B el ctx)))"
  unfolding assms(2)
  by (simp only: renderNode_undispatched [OF assms(1)] Let_def if_True)

lemma renderNode_IMG:
  "renderNode B (Element (str ''IMG'') attrs kids) ctx =
     (let el = Element (str ''IMG'') attrs kids in
      str ''!['' @ escapeMd (attrOrEmpty el (str ''alt'')) @ str ''](''
      @ absolutizeUrl B (attrOrEmpty el (str ''src'')) (baseUrl ctx)
      @ titlePart (getAttr el (str ''title'')) @ str '')'')"
  by (simp add: renderNode.simps str_def Let_def)

lemma renderNode_A:
  "renderNode B (Element (str ''A'') attrs kids) ctx =
     (let el = Element (str ''A'') attrs kids;
          inner = trimBlankLines (renderInlineChildren B el ctx)
      in str ''['' @ (if inner \<noteq> [] then inner else attrOrEmpty el (str ''href'')) @ str ''](''
      @ absolutizeUrl B (attrOrEmpty el (str ''href'')) (baseUrl ctx)
      @ titlePart (getAttr el (str ''title'')) @ str '')'')"
  by (simp add: renderNode.simps str_def Let_def)

lemma includesStr_single: "includesStr s [c] \<longleftrightarrow> c \<in> set s"
  by (induction s) (auto simp: includesStr_def sublist_Cons_right)

lemma renderNode_CODE:
  "renderNode B (Element (str ''CODE'') attrs kids) ctx =
     (let raw = concat (map textContentOf kids);
          ticks = (if 96 \<in> set raw then [96, 96] else [96])
      in ticks @ raw @ ticks)"
  by (simp add: renderNode.simps str_def Let_def includesStr_single)

lemma renderNode_PRE:
  "renderNode B (Element (str ''PRE'') attrs kids) ctx =
     (let el = Element (str ''PRE'') attrs kids;
          code = querySelector el (str ''code'');
          text = normalizeEol (preText el);
          lang = (case code of None \<Rightarrow> None | Some c \<Rightarrow> getCodeLang c)
      in [10, 10] @ codeFence text lang @ [10, 10])"
  by (simp add: renderNode.simps str_def Let_def preText_def)

lemma langAt_chars: "langAt s = Some m \<Longrightarrow> 10 \<notin> set m"
  by (auto simp: langAt_def isLangChar_def split: if_splits dest!: set_takeWhileD)

lemma matchLang_chars: "matchLang s = Some m \<Longrightarrow> 10 \<notin> set m"
  by (induction s) (auto split: option.splits dest: langAt_chars)

lemma getCodeLang_chars: "getCodeLang el = Some m \<Longrightarrow> 10 \<notin> set m"
  unfolding getCodeLang_def by (rule matchLang_chars)

lemma escapeMd_each:
  "escapeMd s = concat (map (\<lambda>c. if c = 92 \<or> isMdSpecial c then [92, c] else [c]) s)"
  by (induction s) (simp_all add: escapeMd_def replaceEach_def isMdSpecial_def)

lemma normalizeEol_no_cr: "13 \<notin> set t \<Longrightarrow> normalizeEol t = t"
  by (induction t rule: normalizeEol.induct) simp_all

lemma normalizeEol_keeps:
  "filter (\<lambda>c. c \<noteq> 13 \<and> c \<noteq> 10) (normalizeEol t) = filter (\<lambda>c. c \<noteq> 13 \<and> c \<noteq> 10) t"
  by (induction t rule: normalizeEol.induct) auto

lemma resolvesTo_absolutizeUrl: "resolvesTo B href base (absolutizeUrl B href base)"
  unfolding resolvesTo_def
proof (intro conjI allI impI)
  fix attrs kids and ctx :: ctx
  assume "baseUrl ctx = base \<and> attrOrEmpty (Element (str ''IMG'') attrs kids) (str ''src'') = href"
  then show "renderNode B (Element (str ''IMG'') attrs kids) ctx
      = str ''!['' @ escapeMd (attrOrEmpty (Element (str ''IMG'') attrs kids) (str ''alt''))
        @ str '']('' @ absolutizeUrl B href base
        @ titlePart (getAttr (Element (str ''IMG'') attrs kids) (str ''title'')) @ str '')''"
    by (simp only: renderNode_IMG Let_def)
next
  fix attrs kids and ctx :: ctx
  assume "baseUrl ctx = base \<and> attrOrEmpty (Element (str ''A'') attrs kids) (str ''href'') = href"
  then show "renderNode B (Element (str ''A'') attrs kids) ctx
      = str ''[''
        @ (if trimBlankLines (renderInlineChildren B (Element (str ''A'') attrs kids) ctx) = []
           then href
           else trimBlankLines (renderInlineChildren B (Element (str ''A'') attrs kids) ctx))
        @ str '']('' @ absolutizeUrl B href base
        @ titlePart (getAttr (Element (str ''A'') attrs kids) (str ''title'')) @ str '')''"
    by (simp only: renderNode_A Let_def) simp
qed simp

lemma ignored_tags:
  "tag \<in> set (map str [''SCRIPT'', ''STYLE'', ''NOSCRIPT'', ''META'', ''LINK''])
     \<Longrightarrow> renderNode B (Element tag attrs kids) ctx = []"
  by (auto simp: renderNode.simps)

lemma plain_block_tags:
  "tag \<in> set (map str [''P'', ''DIV'', ''SECTION'', ''ARTICLE'', ''HEADER'', ''FOOTER'', ''MAIN'',
      ''ASIDE'', ''LI'', ''THEAD'', ''TBODY'', ''TFOOT'', ''TR'', ''TD'', ''TH''])
     \<Longrightarrow> \<not> dispatchedByTag tag \<and> isBlock (Element tag attrs kids)"
  by (auto simp: dispatchedByTag_def isHeading_def isBlock_def blockTags_def str_def)

lemma plain_block_empty:
  assumes "tag \<in> set (map str [''P'', ''DIV'', ''SECTION'', ''ARTICLE'', ''HEADER'', ''FOOTER'',
      ''MAIN'', ''ASIDE'', ''LI'', ''THEAD'', ''TBODY'', ''TFOOT'', ''TR'', ''TD'', ''TH''])"
    and "\<not> isBoldLike (Element tag attrs kids)" "\<not> isItalicLike (Element tag attrs kids)"
      "\<not> isStrikeLike (Element tag attrs kids)"
    and "trimBlankLines (renderInlineChildren B (Element tag attrs kids) ctx) = []"
  shows "renderNode B (Element tag attrs kids) ctx = []"
proof -
  from plain_block_tags [OF assms(1)]
  have d: "\<not> dispatchedByTag tag" and b: "isBlock (Element tag attrs kids)" by blast+
  show ?thesis
    using assms(2-5) b by (simp only: renderNode_undispatched [OF d] Let_def simp_thms if_False if_True)
qed

section \<open>Facts about the list renderer\<close>

lemma renderList_loop:
  assumes f: "\<And>next out li. f (next, out) li =
     (let idx = orderedIndex next ! (length (orderedIndex next) - 1) + 1;
          next = next\<lparr>orderedIndex := (orderedIndex next)[length (orderedIndex next) - 1 := idx]\<rparr>;
          bullet = (if ordered then showNat idx @ str ''. '' else str ''- '');
          contentMd = trimBlankLines (renderListItem B li next);
          lines = splitOn 10 contentMd;
          indent = repeat (str ''  '') (listDepth ctx);
          first = indent @ bullet @ hd lines;
          rest = map (\<lambda>l. indent @ str ''  '' @ l) (tl lines)
      in (next, out @ [joinWith [10] (first # rest)]))"
  shows "foldl f (nextCtx ctx ordered k, out) items
   = (nextCtx ctx ordered (k + length items),
      out @ map (\<lambda>(n, li). listItemText B ctx ordered n li) (zip [Suc k..<Suc (k + length items)] items))"
proof (induction items arbitrary: k out)
  case Nil
  then show ?case by simp
next
  case (Cons li items)
  have one: "f (nextCtx ctx ordered k, out) li
      = (nextCtx ctx ordered (Suc k), out @ [listItemText B ctx ordered (Suc k) li])"
    by (simp add: f Let_def listItemText_def) (simp add: nextCtx_def)
  have z: "zip [Suc k..<Suc (k + length (li # items))] (li # items)
      = (Suc k, li) # zip [Suc (Suc k)..<Suc (Suc k + length items)] items"
    using upt_rec [of "Suc k" "Suc (Suc k + length items)"] by simp
  show ?case
    unfolding foldl_Cons z one Cons.IH by simp
qed

lemma renderList_items:
  "renderList B el ctx ordered
     = joinWith [10] (map (\<lambda>(n, li). listItemText B ctx ordered n li)
         (zip [1..<Suc (length (listItems el))] (listItems el)))"
proof -
  have n0: "ctx\<lparr>listDepth := listDepth ctx + 1, orderedStack := orderedStack ctx @ [ordered],
         orderedIndex := orderedIndex ctx @ [0]\<rparr> = nextCtx ctx ordered 0"
    by (simp add: nextCtx_def)
  show ?thesis
    unfolding renderList.simps Let_def n0 listItems_def [symmetric]
    by (subst renderList_loop) (simp_all add: Let_def)
qed

lemma joinWith_Cons: "joinWith sep (x # xs) = x @ (if xs = [] then [] else sep @ joinWith sep xs)"
  by (cases xs) simp_all

lemma listItemText_bullet:
  "prefix (repeat (str ''  '') (listDepth ctx)
            @ (if ordered then showNat n @ str ''. '' else str ''- ''))
     (listItemText B ctx ordered n li)"
  by (simp add: listItemText_def Let_def joinWith_Cons)

section \<open>Facts about the table renderer\<close>

lemma renderTable_loop:
  assumes f: "\<And>grid headerCells tr. f (grid, headerCells) tr =
     (let cells = rowCells tr;
          texts = map (\<lambda>td. cellText (trimBlankLines (renderInlineChildren B td ctx))) cells;
          headerCells =
            (if headerCells = None \<and> list_ex (\<lambda>c. tagName c = str ''TH'') cells
             then Some texts else headerCells)
      in (grid @ [texts], headerCells))"
  shows "foldl f (grid, hc) rows
    = (grid @ map (cellTexts B ctx) rows,
       case hc of Some h \<Rightarrow> Some h
       | None \<Rightarrow> map_option (cellTexts B ctx) (find hasHeaderCell rows))"
proof (induction rows arbitrary: grid hc)
  case Nil
  then show ?case by (simp split: option.splits)
next
  case (Cons tr rows)
  have one: "f (grid, hc) tr
      = (grid @ [cellTexts B ctx tr],
         if hc = None \<and> hasHeaderCell tr then Some (cellTexts B ctx tr) else hc)"
    by (simp add: f Let_def cellTexts_def hasHeaderCell_def)
  show ?case
    unfolding foldl_Cons one Cons.IH
    by (auto split: option.splits)
qed

lemma renderTable_closed:
  "renderTable B table ctx =
     (if tableHead B table ctx = [] then []
      else joinWith [10] (map rowLine
             (tableHead B table ctx # replicate (length (tableHead B table ctx)) (str ''---'')
              # tableBody B table ctx)))"
proof -
  let ?rows = "tableRows table"
  have head: "(case map_option (cellTexts B ctx) (find hasHeaderCell ?rows) of
          Some h \<Rightarrow> h
        | None \<Rightarrow> (case map (cellTexts B ctx) ?rows of [] \<Rightarrow> [] | g # gs \<Rightarrow> g))
      = tableHead B table ctx"
    by (simp add: tableHead_def headerRow_def split: option.splits list.splits)
  have body: "(case map_option (cellTexts B ctx) (find hasHeaderCell ?rows) of
          Some h \<Rightarrow> map (cellTexts B ctx) ?rows
        | None \<Rightarrow> drop 1 (map (cellTexts B ctx) ?rows))
      = tableBody B table ctx"
    by (auto simp: tableBody_def bodyRows_def drop_map list_ex_iff find_None_iff find_Some_iff
        split: option.splits)
  have fin: "foldl (\<lambda>acc tr. case acc of
        (grid, headerCells) \<Rightarrow>
          (grid @ [map (\<lambda>td. cellText (trimBlankLines (renderInlineChildren B td ctx))) (rowCells tr)],
           if headerCells = None \<and> list_ex (\<lambda>c. tagName c = str ''TH'') (rowCells tr)
           then Some (map (\<lambda>td. cellText (trimBlankLines (renderInlineChildren B td ctx))) (rowCells tr))
           else headerCells))
      ([], None) ?rows
    = ([] @ map (cellTexts B ctx) ?rows,
       case None of Some h \<Rightarrow> Some h
       | None \<Rightarrow> map_option (cellTexts B ctx) (find hasHeaderCell ?rows))"
    by (rule renderTable_loop) (simp add: Let_def)
  show ?thesis
    unfolding renderTable.simps Let_def fin
    apply (simp only: fst_conv snd_conv append_Nil option.case head body)
    apply (simp add: map_replicate_const)
    done
qed

section \<open>Facts about the style parser\<close>

lemma splitOn_no_sep: "sep \<notin> set s \<Longrightarrow> splitOn sep s = [s]"
  by (induction s) auto

lemma splitOn_append_sep: "sep \<notin> set a \<Longrightarrow> splitOn sep (a @ sep # b) = a # splitOn sep b"
  by (induction a) auto

lemma toLowerCase_append: "toLowerCase (a @ b) = toLowerCase a @ toLowerCase b"
  by (simp add: toLowerCase_def lowerUnit_def)

lemma toLowerCase_notin: "sep < 97 \<Longrightarrow> sep \<notin> set w \<Longrightarrow> sep \<notin> set (toLowerCase w)"
  by (auto simp: toLowerCase_def lowerUnit_def)

lemma styleMap_single:
  assumes "58 \<notin> set k" "59 \<notin> set k" "trim k = k" "k \<noteq> []" "58 \<notin> set v" "59 \<notin> set v"
  shows "styleMap (k @ 58 # v) k = Some (trim v)"
    and "styleMap (k @ 58 # v @ [59]) k = Some (trim v)"
proof -
  have kv: "splitOn 58 (k @ 58 # v) = [k, v]"
    using assms by (simp add: splitOn_append_sep splitOn_no_sep)
  have "splitOn 59 (k @ 58 # v) = [k @ 58 # v]"
    using assms by (simp add: splitOn_no_sep)
  then show "styleMap (k @ 58 # v) k = Some (trim v)"
    using assms(3,4) by (simp add: styleMap_def kv)
  have "splitOn 59 ((k @ 58 # v) @ 59 # []) = [k @ 58 # v, []]"
    using assms by (subst splitOn_append_sep) simp_all
  then show "styleMap (k @ 58 # v @ [59]) k = Some (trim v)"
    using assms(3,4) by (simp add: styleMap_def kv trim_def)
qed

lemma font_weight_key:
  "58 \<notin> set (str ''font-weight'')" "59 \<notin> set (str ''font-weight'')"
  "trim (str ''font-weight'') = str ''font-weight''" "str ''font-weight'' \<noteq> []"
  "toLowerCase (str ''font-weight'') = str ''font-weight''"
  "str ''font-weight:'' = str ''font-weight'' @ [58]" "str '';'' = [59]"
  by (simp_all add: str_def trim_def isSpace_def toLowerCase_def lowerUnit_def)

lemma styleMap_font_weight:
  assumes "st = str ''font-weight:'' @ w \<or> st = str ''font-weight:'' @ w @ str '';''"
    and "58 \<notin> set w" "59 \<notin> set w"
  shows "styleMap (toLowerCase st) (str ''font-weight'') = Some (trim (toLowerCase w))"
proof -
  let ?k = "str ''font-weight''" and ?v = "toLowerCase w"
  have v: "58 \<notin> set ?v" "59 \<notin> set ?v"
    using assms(2,3) by (simp_all add: toLowerCase_notin)
  from assms(1) have "toLowerCase st = ?k @ 58 # ?v \<or> toLowerCase st = ?k @ 58 # ?v @ [59]"
    by (auto simp: font_weight_key toLowerCase_append) (simp_all add: toLowerCase_def lowerUnit_def)
  then show ?thesis
    using styleMap_single [OF font_weight_key(1-4) v] by auto
qed

lemma reBold_values:
  "v \<in> set (map str [''bold'', ''600'', ''700'', ''800'', ''900'']) \<Longrightarrow> v \<noteq> [] \<and> reBold v"
  by (auto simp: reBold_def includesStr_def str_def sublist_code)

lemma styleMap_loop:
  assumes f: "\<And>m pair. f m pair =
      (if fst (parseDeclaration pair) \<noteq> []
       then m(fst (parseDeclaration pair) \<mapsto> snd (parseDeclaration pair)) else m)"
    and ne: "prop \<noteq> []"
  shows "foldl f m ds prop
     = (case lastValue prop (map parseDeclaration ds) of Some v \<Rightarrow> Some v | None \<Rightarrow> m prop)"
proof (induction ds arbitrary: m)
  case Nil
  then show ?case by simp
next
  case (Cons d ds)
  have "foldl f m (d # ds) prop = foldl f (f m d) ds prop" by simp
  also have "\<dots> = (case lastValue prop (map parseDeclaration ds) of
      Some v \<Rightarrow> Some v | None \<Rightarrow> (f m d) prop)"
    by (rule Cons.IH)
  also have "\<dots> = (case lastValue prop (map parseDeclaration (d # ds)) of
      Some v \<Rightarrow> Some v | None \<Rightarrow> m prop)"
    using ne by (auto simp: f split: option.splits)
  finally show ?case .
qed

lemma styleMap_assigned:
  assumes "prop \<noteq> []"
  shows "styleMap st prop = assigned st prop"
proof -
  have "styleMap st prop
      = (case lastValue prop (map parseDeclaration (splitOn 59 st)) of
           Some v \<Rightarrow> Some v | None \<Rightarrow> Map.empty prop)"
    unfolding styleMap_def
    by (rule styleMap_loop [OF _ assms]) (simp add: parseDeclaration_def Let_def)
  then show ?thesis by (simp add: assigned_def split: option.splits)
qed

lemma splitOn_not_Nil: "splitOn sep s \<noteq> []"
  by (induction s) (auto split: list.splits)

lemma splitOn_append: "splitOn sep (a @ sep # b) = splitOn sep a @ splitOn sep b"
  by (induction a) (auto split: list.splits simp: splitOn_not_Nil)

lemma lastValue_append:
  "lastValue prop (xs @ ys)
     = (case lastValue prop ys of Some v \<Rightarrow> Some v | None \<Rightarrow> lastValue prop xs)"
  by (induction xs) (auto split: option.splits)

lemma toLowerCase_last: "pre \<noteq> [] \<Longrightarrow> last pre = 59 \<Longrightarrow> \<exists>p. toLowerCase pre = p @ [59]"
proof -
  assume "pre \<noteq> []" "last pre = 59"
  then have "pre = butlast pre @ [59]" by (metis append_butlast_last_id)
  then have "toLowerCase pre = toLowerCase (butlast pre) @ toLowerCase [59]"
    by (metis toLowerCase_append)
  then show ?thesis by (simp add: toLowerCase_def lowerUnit_def)
qed

lemma declaration_font_weight:
  assumes "58 \<notin> set v"
  shows "parseDeclaration (str ''font-weight'' @ 58 # v) = (str ''font-weight'', trim v)"
  using assms font_weight_key(1,3)
  by (simp add: parseDeclaration_def splitOn_append_sep splitOn_no_sep)

lemma assigned_font_weight_last:
  assumes "pre = [] \<or> last pre = 59" and "post = [] \<or> post = [59]"
    and "58 \<notin> set w" and "59 \<notin> set w"
  shows "assigned (toLowerCase (pre @ str ''font-weight:'' @ w @ post)) (str ''font-weight'')
     = Some (trim (toLowerCase w))"
proof -
  let ?k = "str ''font-weight''" and ?v = "toLowerCase w"
  have v: "58 \<notin> set ?v" "59 \<notin> set ?v"
    using assms(3,4) by (simp_all add: toLowerCase_notin)
  have post: "toLowerCase post = post"
    using assms(2) by (auto simp: toLowerCase_def lowerUnit_def)
  have low: "toLowerCase (pre @ str ''font-weight:'' @ w @ post)
      = toLowerCase pre @ (?k @ 58 # ?v) @ post"
  proof -
    have c: "toLowerCase [58] = [58]" by (simp add: toLowerCase_def lowerUnit_def)
    have "toLowerCase (pre @ str ''font-weight:'' @ w @ post)
        = toLowerCase pre @ toLowerCase ?k @ toLowerCase [58] @ toLowerCase w @ toLowerCase post"
      by (simp only: font_weight_key(6) toLowerCase_append append_assoc)
    then show ?thesis by (simp add: c post font_weight_key(5))
  qed
  have d: "map parseDeclaration (splitOn 59 ((?k @ 58 # ?v) @ post))
      = (?k, trim ?v) # (if post = [] then [] else [([], [])])"
  proof (cases "post = []")
    case True
    then show ?thesis
      using v font_weight_key(2) by (simp add: splitOn_no_sep declaration_font_weight)
  next
    case False
    with assms(2) have p: "post = [59]" by simp
    have "splitOn 59 ((?k @ 58 # ?v) @ 59 # []) = [?k @ 58 # ?v, []]"
      using v font_weight_key(2) by (subst splitOn_append_sep) simp_all
    then show ?thesis
      using v by (simp add: p declaration_font_weight) (simp add: parseDeclaration_def trim_def)
  qed
  have l: "lastValue ?k (map parseDeclaration (splitOn 59 ((?k @ 58 # ?v) @ post))) = Some (trim ?v)"
    using font_weight_key(4) d by auto
  show ?thesis
  proof (cases "pre = []")
    case True
    then have "toLowerCase pre = []" by (simp add: toLowerCase_def)
    then show ?thesis
      unfolding assigned_def low using l by simp
  next
    case False
    with assms(1) toLowerCase_last obtain p where p: "toLowerCase pre = p @ [59]" by blast
    have "splitOn 59 (toLowerCase pre @ (?k @ 58 # ?v) @ post)
        = splitOn 59 p @ splitOn 59 ((?k @ 58 # ?v) @ post)"
      unfolding p using splitOn_append [of 59 p "(?k @ 58 # ?v) @ post"] by simp
    then show ?thesis
      unfolding assigned_def low using l by (simp add: lastValue_append)
  qed
qed

lemma not_reBold_650: "\<not> reBold (str ''650'')"
  by (simp add: reBold_def includesStr_def sublist_code str_def)

lemma isBoldLike_assigned:
  "isBoldLike el \<longleftrightarrow>
      tagName el = str ''B'' \<or> tagName el = str ''STRONG''
      \<or> (\<exists>v. assigned (toLowerCase (attrOrEmpty el (str ''style''))) (str ''font-weight'') = Some v
             \<and> v \<noteq> [] \<and> reBold v)"
  by (auto simp: isBoldLike_def styleHas_def attrOrEmpty_def
      styleMap_assigned [OF font_weight_key(4)] split: option.splits)

lemma toLowerCase_Cons_59: "toLowerCase (59 # q) = 59 # toLowerCase q"
  by (simp add: toLowerCase_def lowerUnit_def)

lemma assigned_append:
  "assigned (a @ 59 # b) prop
     = (case assigned b prop of Some v \<Rightarrow> Some v | None \<Rightarrow> assigned a prop)"
  unfolding assigned_def by (simp add: splitOn_append lastValue_append)

lemma assigned_font_weight:
  assumes "pre = [] \<or> last pre = 59"
    and "post = [] \<or> (\<exists>q. post = 59 # q \<and> assigned (toLowerCase q) (str ''font-weight'') = None)"
    and "58 \<notin> set w" and "59 \<notin> set w"
  shows "assigned (toLowerCase (pre @ str ''font-weight:'' @ w @ post)) (str ''font-weight'')
     = Some (trim (toLowerCase w))"
proof (cases "post = []")
  case True
  then show ?thesis
    using assigned_font_weight_last [OF assms(1) _ assms(3,4), of "[]"] by simp
next
  case False
  with assms(2) obtain q where q: "post = 59 # q"
    and n: "assigned (toLowerCase q) (str ''font-weight'') = None" by blast
  have "toLowerCase (pre @ str ''font-weight:'' @ w @ post)
      = toLowerCase (pre @ str ''font-weight:'' @ w @ []) @ 59 # toLowerCase q"
    by (simp add: q toLowerCase_append toLowerCase_Cons_59)
  then show ?thesis
    using assigned_font_weight_last [OF assms(1) _ assms(3,4), of "[]"] n
    by (simp only: assigned_append) simp
qed

lemma isBoldLike_element: "isBoldLike el \<Longrightarrow> \<exists>tag attrs kids. el = Element tag attrs kids"
  by (cases el)
    (simp_all add: isBoldLike_def styleHas_def styleMap_def toLowerCase_def str_def trim_def)

section \<open>Evaluating the converter\<close>

lemmas string_evals = str_def trim_def isSpace_def includesStr_def sublist_code
  trimBlankLines_def stripLeadingBlank_def stripTrailingBlank_def stripNewlines_def
  normalizeLines_def escapeMd_def replaceEach_def isMdSpecial_def repeat_def Let_def

lemma parseRoot_browserFor:
  "parseRoot (browserFor html kids) (wrapHtml html)
     = Some (Element (str ''DIV'') [(str ''id'', str ''__root__'')] kids)"
  by (simp add: browserFor_def)

lemma foldl_append_concat: "foldl (\<lambda>out x. out @ f x) acc xs = acc @ concat (map f xs)"
  by (induction xs arbitrary: acc) simp_all

lemma htmlToMarkdown_parsed:
  assumes "html \<noteq> []" "trim html \<noteq> []" "parseRoot B (wrapHtml html) = Some root"
  shows "htmlToMarkdown B html opts
     = finish (concat (map (\<lambda>child. renderNode B child (initialCtx opts)) (childNodes root)))"
  using assms
  by (simp add: htmlToMarkdown_def Let_def foldl_append_concat finish_def initialCtx_def str_def)

lemma htmlToMarkdown_browserFor:
  assumes "html \<noteq> []" "trim html \<noteq> []"
  shows "htmlToMarkdown (browserFor html kids) html opts
     = finish (concat (map (\<lambda>child. renderNode (browserFor html kids) child (initialCtx opts)) kids))"
  using htmlToMarkdown_parsed [OF assms parseRoot_browserFor] by simp

lemma renderNode_PRE_example:
  "renderNode B (Element (str ''PRE'') [] [Text (str ''a\<newline>\<newline>\<newline>b'')]) ctx
     = str ''\<newline>\<newline>```\<newline>a\<newline>\<newline>\<newline>b\<newline>```\<newline>\<newline>''"
  by (simp add: renderNode.simps string_evals isHeading_def querySelector_def matchesType_def upperAscii_def codeFence_def)

lemma htmlToMarkdown_PRE_example:
  "htmlToMarkdown
     (browserFor (str ''<pre>a\<newline>\<newline>\<newline>b</pre>'')
        [Element (str ''PRE'') [] [Text (str ''a\<newline>\<newline>\<newline>b'')]])
     (str ''<pre>a\<newline>\<newline>\<newline>b</pre>'') \<lparr>baseUrl = None\<rparr>
   = str ''```\<newline>a\<newline>\<newline>b\<newline>```\<newline>''"
  apply (subst htmlToMarkdown_browserFor)
    apply (simp add: str_def)
   apply (simp add: str_def trim_def isSpace_def)
  apply (simp only: list.map concat.simps append_Nil2 renderNode_PRE_example)
  apply (simp add: finish_def string_evals)
  done

lemma renderNode_UL:
  "tag = str ''UL'' \<Longrightarrow> renderNode B (Element tag attrs kids) ctx
     = [10] @ renderList B (Element tag attrs kids) ctx False @ [10, 10]"
  by (simp add: renderNode.simps str_def Let_def isHeading_def)

lemma renderNode_OL:
  "tag = str ''OL'' \<Longrightarrow> renderNode B (Element tag attrs kids) ctx
     = [10] @ renderList B (Element tag attrs kids) ctx True @ [10, 10]"
  by (simp add: renderNode.simps str_def Let_def isHeading_def)

lemmas list_evals = renderNode.simps(1,2) renderNode_UL renderNode_OL renderInlineChildren.simps
  renderListItem.simps renderList_items listItemText_def listItems_def children_def nextCtx_def
  initialCtx_def showNat.simps

section \<open>The claims\<close>

text \<open>
  C2. For every input and every option value, the string \<open>htmlToMarkdown\<close> returns has no
  run of three or more consecutive line feeds: it is never of the form
  \<open>u @ [10, 10, 10] @ v\<close>. The last two steps of the function enforce this on whatever the
  nodes rendered to, the text of \<open>pre\<close> and \<open>code\<close> elements included.
\<close>

theorem htmlToMarkdown_no_three_newlines:
  "\<nexists>u v. htmlToMarkdown B html opts = u @ [10, 10, 10] @ v"
proof -
  have "\<not> sublist [10, 10, 10] (htmlToMarkdown B html opts)"
    using htmlToMarkdown_cases [of B html opts] final_no3 by auto
  then show ?thesis by (simp add: sublist_def)
qed

theorem htmlToMarkdown_no_three_newlines_witness:
  "htmlToMarkdown
     (browserFor (str ''<pre>a\<newline>\<newline>\<newline>b</pre>'')
        [Element (str ''PRE'') [] [Text (str ''a\<newline>\<newline>\<newline>b'')]])
     (str ''<pre>a\<newline>\<newline>\<newline>b</pre>'') \<lparr>baseUrl = None\<rparr>
   = str ''```\<newline>a\<newline>\<newline>b\<newline>```\<newline>''
   \<and> (\<nexists>u v. str ''```\<newline>a\<newline>\<newline>b\<newline>```\<newline>'' = u @ [10, 10, 10] @ v)"
  using htmlToMarkdown_no_three_newlines
    [of "browserFor (str ''<pre>a\<newline>\<newline>\<newline>b</pre>'')
           [Element (str ''PRE'') [] [Text (str ''a\<newline>\<newline>\<newline>b'')]]"
        "str ''<pre>a\<newline>\<newline>\<newline>b</pre>''" "\<lparr>baseUrl = None\<rparr>"]
  by (simp only: htmlToMarkdown_PRE_example simp_thms)

text \<open>
  C6, as amended. \<open>htmlToMarkdown\<close> returns the empty string when the input is empty or all
  whitespace. Every non-empty output ends with exactly one line feed, and it does not begin
  with a blank line unless it is the single line feed (which is what the function returns
  when everything rendered to nothing).
\<close>

theorem htmlToMarkdown_shape:
  "(html = [] \<or> (\<forall>c\<in>set html. isSpace c) \<longrightarrow> htmlToMarkdown B html opts = [])
   \<and> (htmlToMarkdown B html opts \<noteq> [] \<longrightarrow>
        endsWithOneNewline (htmlToMarkdown B html opts)
        \<and> (htmlToMarkdown B html opts = [10]
             \<or> \<not> beginsWithBlankLine (htmlToMarkdown B html opts)))"
proof (intro conjI impI)
  assume "html = [] \<or> (\<forall>c\<in>set html. isSpace c)"
  then have "html = [] \<or> trim html = []" by (simp add: trim_empty_iff)
  then show "htmlToMarkdown B html opts = []" by (auto simp: htmlToMarkdown_def)
next
  assume ne: "htmlToMarkdown B html opts \<noteq> []"
  with htmlToMarkdown_cases [of B html opts]
  obtain x where out: "htmlToMarkdown B html opts = trim (normalizeLines x) @ [10]" by auto
  let ?t = "trim (normalizeLines x)"
  show "endsWithOneNewline (htmlToMarkdown B html opts)"
    using trim_not_space_last [of "normalizeLines x"]
    by (auto simp: out endsWithOneNewline_def isSpace_def)
  show "htmlToMarkdown B html opts = [10] \<or> \<not> beginsWithBlankLine (htmlToMarkdown B html opts)"
  proof (cases "?t = []")
    case True
    then show ?thesis by (simp add: out)
  next
    case False
    then obtain c r where t: "?t = c # r" by (cases ?t) auto
    with trim_not_space_hd [of "normalizeLines x"] have c: "\<not> isSpace c" by simp
    then have "c \<noteq> 10" by (auto simp: isSpace_def)
    with c have "\<not> beginsWithBlankLine (?t @ [10])"
      by (simp add: beginsWithBlankLine_def t)
    then show ?thesis by (simp add: out)
  qed
qed

lemma htmlToMarkdown_P_example:
  "htmlToMarkdown (browserFor (str ''<p>Hi</p>'') [Element (str ''P'') [] [Text (str ''Hi'')]])
     (str ''<p>Hi</p>'') \<lparr>baseUrl = None\<rparr> = str ''Hi\<newline>''"
  apply (subst htmlToMarkdown_browserFor)
    apply (simp add: str_def)
   apply (simp add: str_def trim_def isSpace_def)
  apply (simp add: render_simps finish_def string_evals isHeading_def isBoldLike_def
      isItalicLike_def isStrikeLike_def styleHas_def styleMap_def toLowerCase_def lowerUnit_def isBlock_def
      blockTags_def)
  done

theorem htmlToMarkdown_shape_witness:
  "htmlToMarkdown (browserFor [] []) (str ''  '') \<lparr>baseUrl = None\<rparr> = []
   \<and> htmlToMarkdown (browserFor (str ''<p>Hi</p>'') [Element (str ''P'') [] [Text (str ''Hi'')]])
        (str ''<p>Hi</p>'') \<lparr>baseUrl = None\<rparr> = str ''Hi\<newline>''
   \<and> endsWithOneNewline (str ''Hi\<newline>'')
   \<and> \<not> beginsWithBlankLine (str ''Hi\<newline>'')"
proof -
  have "htmlToMarkdown (browserFor [] []) (str ''  '') \<lparr>baseUrl = None\<rparr> = []"
    using htmlToMarkdown_shape [of "str ''  ''" "browserFor [] []" "\<lparr>baseUrl = None\<rparr>"]
    by (simp add: str_def isSpace_def)
  moreover have "endsWithOneNewline (str ''Hi\<newline>'') \<and> \<not> beginsWithBlankLine (str ''Hi\<newline>'')"
    using htmlToMarkdown_shape
      [of "str ''<p>Hi</p>''"
          "browserFor (str ''<p>Hi</p>'') [Element (str ''P'') [] [Text (str ''Hi'')]]"
          "\<lparr>baseUrl = None\<rparr>"]
    unfolding htmlToMarkdown_P_example by (simp add: str_def)
  ultimately show ?thesis by (simp only: htmlToMarkdown_P_example simp_thms)
qed

lemma renderNode_P_empty:
  "renderNode B (Element (str ''P'') [] []) ctx = []"
  by (simp add: render_simps string_evals isHeading_def isBoldLike_def isItalicLike_def
      isStrikeLike_def styleHas_def styleMap_def toLowerCase_def lowerUnit_def isBlock_def blockTags_def)

text \<open>
  C6 as stated fails: the fragment \<open><p></p>\<close> is neither empty nor whitespace, its one
  element renders to nothing, and the output is the single line feed: a non-empty output
  that begins with a blank line.
\<close>

theorem htmlToMarkdown_shape_counterexample:
  "htmlToMarkdown (browserFor (str ''<p></p>'') [Element (str ''P'') [] []])
     (str ''<p></p>'') \<lparr>baseUrl = None\<rparr> = [10]
   \<and> beginsWithBlankLine [10]"
  apply (subst htmlToMarkdown_browserFor)
    apply (simp add: str_def)
   apply (simp add: str_def trim_def isSpace_def)
  apply (simp only: list.map concat.simps append_Nil2 renderNode_P_empty)
  apply (simp add: finish_def string_evals beginsWithBlankLine_def)
  done

text \<open>
  C10, as amended. When the input is neither empty nor all whitespace, the parser finds the
  root element, and every child node of the root renders to the empty string,
  \<open>htmlToMarkdown\<close> returns the one line feed. When the parser finds no root element it
  returns the empty string. A \<open>script\<close>, \<open>style\<close>, \<open>noscript\<close>, \<open>meta\<close> or \<open>link\<close>
  element renders to the empty string, whatever it holds. So does an element that the
  generic block rule handles (\<open>p\<close>, \<open>div\<close>, \<open>section\<close>, \<open>article\<close>, \<open>header\<close>, \<open>footer\<close>,
  \<open>main\<close>, \<open>aside\<close>, \<open>li\<close>, \<open>thead\<close>, \<open>tbody\<close>, \<open>tfoot\<close>, \<open>tr\<close>, \<open>td\<close>, \<open>th\<close>) when no
  emphasis classifier matches it and its trimmed inline content is empty; and the trimmed
  inline content of an element without child nodes is empty.
\<close>

theorem htmlToMarkdown_nothing_rendered:
  "(html \<noteq> [] \<and> \<not> (\<forall>c\<in>set html. isSpace c) \<and> parseRoot B (wrapHtml html) = Some root
      \<and> (\<forall>child\<in>set (childNodes root). renderNode B child (initialCtx opts) = [])
      \<longrightarrow> htmlToMarkdown B html opts = [10])
   \<and> (parseRoot B (wrapHtml html) = None \<longrightarrow> htmlToMarkdown B html opts = [])
   \<and> (\<forall>tag\<in>set (map str [''SCRIPT'', ''STYLE'', ''NOSCRIPT'', ''META'', ''LINK'']).
         \<forall>attrs kids ctx. renderNode B (Element tag attrs kids) ctx = [])
   \<and> (\<forall>tag\<in>set (map str [''P'', ''DIV'', ''SECTION'', ''ARTICLE'', ''HEADER'', ''FOOTER'', ''MAIN'',
           ''ASIDE'', ''LI'', ''THEAD'', ''TBODY'', ''TFOOT'', ''TR'', ''TD'', ''TH'']).
         \<forall>attrs kids ctx.
           \<not> isBoldLike (Element tag attrs kids) \<and> \<not> isItalicLike (Element tag attrs kids)
           \<and> \<not> isStrikeLike (Element tag attrs kids)
           \<and> trimBlankLines (renderInlineChildren B (Element tag attrs kids) ctx) = []
           \<longrightarrow> renderNode B (Element tag attrs kids) ctx = [])
   \<and> (\<forall>tag attrs ctx. trimBlankLines (renderInlineChildren B (Element tag attrs []) ctx) = [])"
proof -
  have c1: "html \<noteq> [] \<and> \<not> (\<forall>c\<in>set html. isSpace c) \<and> parseRoot B (wrapHtml html) = Some root
      \<and> (\<forall>child\<in>set (childNodes root). renderNode B child (initialCtx opts) = [])
      \<longrightarrow> htmlToMarkdown B html opts = [10]"
  proof
    assume a: "html \<noteq> [] \<and> \<not> (\<forall>c\<in>set html. isSpace c) \<and> parseRoot B (wrapHtml html) = Some root
      \<and> (\<forall>child\<in>set (childNodes root). renderNode B child (initialCtx opts) = [])"
    then have t: "trim html \<noteq> []" by (simp add: trim_empty_iff)
    from a have e: "concat (map (\<lambda>child. renderNode B child (initialCtx opts)) (childNodes root)) = []"
      by simp
    have f: "finish [] = [10]"
      by (simp add: finish_def string_evals)
    from a t have h: "htmlToMarkdown B html opts
        = finish (concat (map (\<lambda>child. renderNode B child (initialCtx opts)) (childNodes root)))"
      by (intro htmlToMarkdown_parsed) simp_all
    show "htmlToMarkdown B html opts = [10]" by (simp only: h e f)
  qed
  have c2: "parseRoot B (wrapHtml html) = None \<longrightarrow> htmlToMarkdown B html opts = []"
    by (simp add: htmlToMarkdown_def)
  have c3: "\<forall>tag\<in>set (map str [''SCRIPT'', ''STYLE'', ''NOSCRIPT'', ''META'', ''LINK'']).
         \<forall>attrs kids ctx. renderNode B (Element tag attrs kids) ctx = []"
    using ignored_tags by blast
  have c4: "\<forall>tag\<in>set (map str [''P'', ''DIV'', ''SECTION'', ''ARTICLE'', ''HEADER'', ''FOOTER'', ''MAIN'',
           ''ASIDE'', ''LI'', ''THEAD'', ''TBODY'', ''TFOOT'', ''TR'', ''TD'', ''TH'']).
         \<forall>attrs kids ctx.
           \<not> isBoldLike (Element tag attrs kids) \<and> \<not> isItalicLike (Element tag attrs kids)
           \<and> \<not> isStrikeLike (Element tag attrs kids)
           \<and> trimBlankLines (renderInlineChildren B (Element tag attrs kids) ctx) = []
           \<longrightarrow> renderNode B (Element tag attrs kids) ctx = []"
    using plain_block_empty by blast
  have c5: "\<forall>tag attrs ctx. trimBlankLines (renderInlineChildren B (Element tag attrs []) ctx) = []"
    by (simp add: renderInlineChildren.simps string_evals)
  show ?thesis by (intro conjI) (rule c1 c2 c3 c4 c5)+
qed

lemma P_plain_example:
  "\<not> isBoldLike (Element (str ''P'') [] kids)"
  "\<not> isItalicLike (Element (str ''P'') [] kids)"
  "\<not> isStrikeLike (Element (str ''P'') [] kids)"
  by (simp_all add: isBoldLike_def isItalicLike_def isStrikeLike_def styleHas_def styleMap_def
      toLowerCase_def str_def trim_def)

theorem htmlToMarkdown_nothing_rendered_witness:
  "htmlToMarkdown
     (browserFor (str ''<script>x</script><style>y</style><noscript>z</noscript><meta><link><p></p>'')
        [Element (str ''SCRIPT'') [] [Text (str ''x'')], Element (str ''STYLE'') [] [Text (str ''y'')],
         Element (str ''NOSCRIPT'') [] [Text (str ''z'')], Element (str ''META'') [] [],
         Element (str ''LINK'') [] [], Element (str ''P'') [] []])
     (str ''<script>x</script><style>y</style><noscript>z</noscript><meta><link><p></p>'')
     \<lparr>baseUrl = None\<rparr> = [10]"
proof -
  let ?html = "str ''<script>x</script><style>y</style><noscript>z</noscript><meta><link><p></p>''"
  let ?kids = "[Element (str ''SCRIPT'') [] [Text (str ''x'')],
         Element (str ''STYLE'') [] [Text (str ''y'')],
         Element (str ''NOSCRIPT'') [] [Text (str ''z'')], Element (str ''META'') [] [],
         Element (str ''LINK'') [] [], Element (str ''P'') [] []]"
  let ?B = "browserFor ?html ?kids"
  let ?root = "Element (str ''DIV'') [(str ''id'', str ''__root__'')] ?kids"
  let ?o = "\<lparr>baseUrl = None\<rparr>"
  note nr = htmlToMarkdown_nothing_rendered [of ?html ?B ?root ?o]
  have i: "\<And>tag attrs kids ctx.
      tag \<in> set (map str [''SCRIPT'', ''STYLE'', ''NOSCRIPT'', ''META'', ''LINK''])
      \<Longrightarrow> renderNode ?B (Element tag attrs kids) ctx = []"
    using nr by blast
  have s: "renderNode ?B (Element (str ''SCRIPT'') [] [Text (str ''x'')]) (initialCtx ?o) = []"
    "renderNode ?B (Element (str ''STYLE'') [] [Text (str ''y'')]) (initialCtx ?o) = []"
    "renderNode ?B (Element (str ''NOSCRIPT'') [] [Text (str ''z'')]) (initialCtx ?o) = []"
    "renderNode ?B (Element (str ''META'') [] []) (initialCtx ?o) = []"
    "renderNode ?B (Element (str ''LINK'') [] []) (initialCtx ?o) = []"
    by (rule i, simp)+
  have e: "trimBlankLines (renderInlineChildren ?B (Element (str ''P'') [] []) (initialCtx ?o)) = []"
    using nr by blast
  have "str ''P'' \<in> set (map str [''P'', ''DIV'', ''SECTION'', ''ARTICLE'', ''HEADER'', ''FOOTER'',
      ''MAIN'', ''ASIDE'', ''LI'', ''THEAD'', ''TBODY'', ''TFOOT'', ''TR'', ''TD'', ''TH''])"
    by simp
  with nr e P_plain_example [of "[]"]
  have p: "renderNode ?B (Element (str ''P'') [] []) (initialCtx ?o) = []"
    by blast
  have "?html \<noteq> []" by (simp add: str_def)
  moreover have "\<not> (\<forall>c\<in>set ?html. isSpace c)" by (simp add: str_def isSpace_def)
  moreover have "parseRoot ?B (wrapHtml ?html) = Some ?root" by (rule parseRoot_browserFor)
  moreover have "\<forall>child\<in>set (childNodes ?root). renderNode ?B child (initialCtx ?o) = []"
    by (simp only: childNodes.simps list.set ball_simps s p simp_thms)
  ultimately show ?thesis using nr by blast
qed

text \<open>
  C10 as stated fails: the fragment \<open><frameset>\<close> is neither empty nor whitespace, the
  parser leaves no root element in the document, so no top-level node renders to anything,
  and the output is the empty string, not the line feed.
\<close>

theorem htmlToMarkdown_nothing_rendered_counterexample:
  "str ''<frameset>'' \<noteq> [] \<and> trim (str ''<frameset>'') \<noteq> []
   \<and> parseRoot browserWithoutRoot (wrapHtml (str ''<frameset>'')) = None
   \<and> htmlToMarkdown browserWithoutRoot (str ''<frameset>'') \<lparr>baseUrl = None\<rparr> = []"
  by (simp add: htmlToMarkdown_def browserWithoutRoot_def) (simp add: str_def trim_def isSpace_def)

text \<open>
  The block elements with a rule of their own do not render to the empty string when they
  are empty: an empty \<open>h1\<close> renders as a hash and a space between blank lines.
\<close>

lemma empty_heading_example:
  "renderNode B (Element (str ''H1'') [] []) ctx = str ''\<newline>\<newline># \<newline>\<newline>''"
  by (simp add: renderNode.simps renderInlineChildren.simps string_evals isHeading_def)

text \<open>
  C9. \<open>absolutizeUrl\<close> returns a string for every input. When there is no base URL (absent
  or empty), and when the \<open>URL\<close> constructor throws on the string and the base, the string
  ends up as itself: \<open>absolutizeUrl\<close> returns it, and the image and link rules put it as
  it is into the output as the target, for a link with text as for one without. When the
  constructor returns a string, that one ends up as the target instead.
\<close>

theorem absolutizeUrl_fails_open:
  "(base = None \<or> base = Some [] \<or> (\<exists>b. base = Some b \<and> newURL B href b = None)
      \<longrightarrow> resolvesTo B href base href)
   \<and> (\<forall>b u. base = Some b \<and> b \<noteq> [] \<and> newURL B href b = Some u \<longrightarrow> resolvesTo B href base u)"
proof (intro conjI allI impI)
  assume "base = None \<or> base = Some [] \<or> (\<exists>b. base = Some b \<and> newURL B href b = None)"
  then have "absolutizeUrl B href base = href"
    by (auto simp: absolutizeUrl_def)
  with resolvesTo_absolutizeUrl [of B href base] show "resolvesTo B href base href" by simp
next
  fix b u
  assume "base = Some b \<and> b \<noteq> [] \<and> newURL B href b = Some u"
  then have "absolutizeUrl B href base = u"
    by (auto simp: absolutizeUrl_def)
  with resolvesTo_absolutizeUrl [of B href base] show "resolvesTo B href base u" by simp
qed

lemma link_examples:
  "attrOrEmpty (Element (str ''A'') [(str ''href'', str ''/x'')] kids) (str ''href'') = str ''/x''"
  "titlePart (getAttr (Element (str ''A'') [(str ''href'', str ''/x'')] kids) (str ''title'')) = []"
  "trimBlankLines (renderInlineChildren B (Element (str ''A'') [(str ''href'', str ''/x'')]
      [Text (str ''t'')]) ctx) = str ''t''"
  "trimBlankLines (renderInlineChildren B (Element (str ''A'') [(str ''href'', str ''/x'')] []) ctx)
     = []"
  by (simp_all add: attrOrEmpty_def titlePart_def renderInlineChildren.simps renderNode.simps(1)
      string_evals)

theorem absolutizeUrl_fails_open_witness:
  "renderNode (browserFor [] [])
     (Element (str ''A'') [(str ''href'', str ''/x'')] [Text (str ''t'')])
     \<lparr>baseUrl = Some (str ''not a url''), listDepth = 0, orderedStack = [], orderedIndex = []\<rparr>
   = str ''[t](/x)''
   \<and> renderNode browserAtH (Element (str ''A'') [(str ''href'', str ''/x'')] [])
     \<lparr>baseUrl = Some (str ''https://h/''), listDepth = 0, orderedStack = [], orderedIndex = []\<rparr>
   = str ''[/x](https://h/x)''"
proof -
  let ?c1 = "\<lparr>baseUrl = Some (str ''not a url''), listDepth = 0, orderedStack = [],
      orderedIndex = []\<rparr>"
  let ?c2 = "\<lparr>baseUrl = Some (str ''https://h/''), listDepth = 0, orderedStack = [],
      orderedIndex = []\<rparr>"
  have "Some (str ''not a url'') = None \<or> Some (str ''not a url'') = Some []
      \<or> (\<exists>b. Some (str ''not a url'') = Some b \<and> newURL (browserFor [] []) (str ''/x'') b = None)"
    by (simp add: browserFor_def)
  with absolutizeUrl_fails_open [of "Some (str ''not a url'')" "browserFor [] []" "str ''/x''"]
  have "resolvesTo (browserFor [] []) (str ''/x'') (Some (str ''not a url'')) (str ''/x'')"
    by blast
  then have "baseUrl ?c1 = Some (str ''not a url'')
      \<and> attrOrEmpty (Element (str ''A'') [(str ''href'', str ''/x'')] [Text (str ''t'')]) (str ''href'')
        = str ''/x''
    \<longrightarrow> renderNode (browserFor [] [])
        (Element (str ''A'') [(str ''href'', str ''/x'')] [Text (str ''t'')]) ?c1
      = str ''[''
        @ (if trimBlankLines (renderInlineChildren (browserFor [] [])
                (Element (str ''A'') [(str ''href'', str ''/x'')] [Text (str ''t'')]) ?c1) = []
           then str ''/x''
           else trimBlankLines (renderInlineChildren (browserFor [] [])
                (Element (str ''A'') [(str ''href'', str ''/x'')] [Text (str ''t'')]) ?c1))
        @ str '']('' @ str ''/x''
        @ titlePart (getAttr (Element (str ''A'') [(str ''href'', str ''/x'')] [Text (str ''t'')])
            (str ''title''))
        @ str '')''"
    unfolding resolvesTo_def by blast
  then have 1: "renderNode (browserFor [] [])
        (Element (str ''A'') [(str ''href'', str ''/x'')] [Text (str ''t'')]) ?c1
      = str ''['' @ (if str ''t'' = [] then str ''/x'' else str ''t'') @ str '']('' @ str ''/x''
        @ [] @ str '')''"
    by (simp only: link_examples ctx.simps opts.simps simp_thms)
  have "Some (str ''https://h/'') = Some (str ''https://h/'') \<and> str ''https://h/'' \<noteq> []
      \<and> newURL browserAtH (str ''/x'') (str ''https://h/'') = Some (str ''https://h/x'')"
    by (simp add: browserAtH_def) (simp add: str_def)
  with absolutizeUrl_fails_open [of "Some (str ''https://h/'')" browserAtH "str ''/x''"]
  have "resolvesTo browserAtH (str ''/x'') (Some (str ''https://h/'')) (str ''https://h/x'')"
    by blast
  then have "baseUrl ?c2 = Some (str ''https://h/'')
      \<and> attrOrEmpty (Element (str ''A'') [(str ''href'', str ''/x'')] []) (str ''href'') = str ''/x''
    \<longrightarrow> renderNode browserAtH (Element (str ''A'') [(str ''href'', str ''/x'')] []) ?c2
      = str ''[''
        @ (if trimBlankLines (renderInlineChildren browserAtH
                (Element (str ''A'') [(str ''href'', str ''/x'')] []) ?c2) = []
           then str ''/x''
           else trimBlankLines (renderInlineChildren browserAtH
                (Element (str ''A'') [(str ''href'', str ''/x'')] []) ?c2))
        @ str '']('' @ str ''https://h/x''
        @ titlePart (getAttr (Element (str ''A'') [(str ''href'', str ''/x'')] []) (str ''title''))
        @ str '')''"
    unfolding resolvesTo_def by blast
  then have 2: "renderNode browserAtH (Element (str ''A'') [(str ''href'', str ''/x'')] []) ?c2
      = str ''['' @ str ''/x'' @ str '']('' @ str ''https://h/x'' @ [] @ str '')''"
    by (simp only: link_examples ctx.simps opts.simps simp_thms if_True)
  show ?thesis
    unfolding 1 2 by (simp add: str_def)
qed

text \<open>
  C8, as amended. An element whose tag has no rule of its own before the emphasis rule of
  \<open>renderNode\<close> (the tags with such a rule are those of \<open>dispatchedByTag\<close>) and that is
  matched by at least one emphasis classifier renders as its inline content with the
  markers put around it one after the other: \<open>**\<close> first, then \<open>*\<close>, then \<open>~~\<close>
  outermost, each only if its classifier matches. Bold and italic together, without strike,
  give \<open>***content***\<close>; with strike, \<open>~~***content***~~\<close>.
\<close>

theorem emphasis_markers_order:
  assumes "\<not> dispatchedByTag tag" and "el = Element tag attrs kids"
    and "isBoldLike el \<or> isItalicLike el \<or> isStrikeLike el"
  shows "renderNode B el ctx
      = wrapIf (isStrikeLike el) (str ''~~'') (wrapIf (isItalicLike el) (str ''*'')
          (wrapIf (isBoldLike el) (str ''**'') (renderInlineChildren B el ctx)))
    \<and> (isBoldLike el \<and> isItalicLike el \<and> \<not> isStrikeLike el \<longrightarrow>
         renderNode B el ctx = str ''***'' @ renderInlineChildren B el ctx @ str ''***'')
    \<and> (isBoldLike el \<and> isItalicLike el \<and> isStrikeLike el \<longrightarrow>
         renderNode B el ctx = str ''~~***'' @ renderInlineChildren B el ctx @ str ''***~~'')"
proof -
  have r: "renderNode B el ctx
      = wrapIf (isStrikeLike el) (str ''~~'') (wrapIf (isItalicLike el) (str ''*'')
          (wrapIf (isBoldLike el) (str ''**'') (renderInlineChildren B el ctx)))"
    using assms(3) by (rule emphasis_render [OF assms(1,2)])
  show ?thesis
    unfolding r by (simp add: wrapIf_def str_def)
qed

lemma B_italic_example:
  "isBoldLike (Element (str ''B'') [(str ''style'', str ''font-style:italic'')] kids)"
  "isItalicLike (Element (str ''B'') [(str ''style'', str ''font-style:italic'')] kids)"
  "\<not> isStrikeLike (Element (str ''B'') [(str ''style'', str ''font-style:italic'')] kids)"
  "\<not> dispatchedByTag (str ''B'')"
  by (simp_all add: isBoldLike_def isItalicLike_def isStrikeLike_def styleHas_def styleMap_def
      toLowerCase_def lowerUnit_def str_def trim_def isSpace_def reItalic_def includesStr_def sublist_code
      dispatchedByTag_def isHeading_def)

theorem emphasis_markers_order_witness:
  "renderNode (browserFor [] [])
     (Element (str ''B'') [(str ''style'', str ''font-style:italic'')] [Text (str ''x'')])
     (initialCtx \<lparr>baseUrl = None\<rparr>) = str ''***x***''"
proof -
  let ?el = "Element (str ''B'') [(str ''style'', str ''font-style:italic'')] [Text (str ''x'')]"
  have r: "renderInlineChildren (browserFor [] []) ?el (initialCtx \<lparr>baseUrl = None\<rparr>) = str ''x''"
    by (simp add: render_simps string_evals)
  have e: "str ''***'' @ str ''x'' @ str ''***'' = str ''***x***''"
    by (simp add: str_def)
  have c: "isBoldLike ?el \<or> isItalicLike ?el \<or> isStrikeLike ?el"
    using B_italic_example(1) by blast
  from emphasis_markers_order [OF B_italic_example(4) refl c]
    B_italic_example(1-3) [of "[Text (str ''x'')]"]
  have "renderNode (browserFor [] []) ?el (initialCtx \<lparr>baseUrl = None\<rparr>)
      = str ''***'' @ renderInlineChildren (browserFor [] []) ?el (initialCtx \<lparr>baseUrl = None\<rparr>)
        @ str ''***''"
    by blast
  then show ?thesis by (simp only: r e)
qed

lemma A_bold_italic_example:
  "isBoldLike (Element (str ''A'')
     [(str ''href'', str ''u''), (str ''style'', str ''font-weight:bold;font-style:italic'')] kids)"
  "isItalicLike (Element (str ''A'')
     [(str ''href'', str ''u''), (str ''style'', str ''font-weight:bold;font-style:italic'')] kids)"
  by (simp_all add: isBoldLike_def isItalicLike_def styleHas_def styleMap_def
      toLowerCase_def lowerUnit_def str_def trim_def isSpace_def reBold_def reItalic_def includesStr_def
      sublist_code)

text \<open>
  C8 as stated fails: a link whose style makes it bold and italic is matched by two
  classifiers and renders as a plain link, with no marker around its text; the link rule
  comes before the emphasis rule.
\<close>

theorem emphasis_markers_order_counterexample:
  "isBoldLike (Element (str ''A'')
     [(str ''href'', str ''u''), (str ''style'', str ''font-weight:bold;font-style:italic'')]
     [Text (str ''t'')])
   \<and> isItalicLike (Element (str ''A'')
     [(str ''href'', str ''u''), (str ''style'', str ''font-weight:bold;font-style:italic'')]
     [Text (str ''t'')])
   \<and> renderNode (browserFor [] []) (Element (str ''A'')
     [(str ''href'', str ''u''), (str ''style'', str ''font-weight:bold;font-style:italic'')]
     [Text (str ''t'')]) (initialCtx \<lparr>baseUrl = None\<rparr>) = str ''[t](u)''"
proof -
  have "renderNode (browserFor [] []) (Element (str ''A'')
     [(str ''href'', str ''u''), (str ''style'', str ''font-weight:bold;font-style:italic'')]
     [Text (str ''t'')]) (initialCtx \<lparr>baseUrl = None\<rparr>) = str ''[t](u)''"
    by (subst renderNode_A)
      (simp add: renderInlineChildren.simps renderNode.simps(1) attrOrEmpty_def
        titlePart_def absolutizeUrl_def initialCtx_def string_evals)
  with A_bold_italic_example [of "[Text (str ''t'')]"] show ?thesis by blast
qed

text \<open>
  C4, as amended. An element is classified as bold exactly when its tag is \<open>B\<close> or
  \<open>STRONG\<close>, or its style attribute, in lower case, assigns \<open>font-weight\<close> a value that is
  not empty and has \<open>bold\<close>, or a digit from 6 to 9 followed by two zeros, somewhere in it.
  The value assigned is that of the last declaration named \<open>font-weight\<close>; it is \<open>w\<close>,
  lower-cased and trimmed, when the style has the declaration \<open>font-weight:w\<close> at its start
  or after a semicolon, \<open>w\<close> without colon and semicolon, and what follows, if anything,
  starts with a semicolon and assigns \<open>font-weight\<close> nothing. The keyword \<open>bold\<close> and the
  values \<open>600\<close>, \<open>700\<close>, \<open>800\<close> and \<open>900\<close> pass the test; \<open>650\<close> does not. An element
  classified as bold whose tag has no rule of its own before the emphasis rule has its
  inline content wrapped in \<open>**\<close>, inside the italic and strike markers, if any.
\<close>

theorem font_weight_bold:
  "(isBoldLike el \<longleftrightarrow>
      tagName el = str ''B'' \<or> tagName el = str ''STRONG''
      \<or> (\<exists>v. assigned (toLowerCase (attrOrEmpty el (str ''style''))) (str ''font-weight'') = Some v
             \<and> v \<noteq> [] \<and> reBold v))
   \<and> (\<forall>pre w post.
         attrOrEmpty el (str ''style'') = pre @ str ''font-weight:'' @ w @ post
         \<and> (pre = [] \<or> last pre = 59)
         \<and> (post = [] \<or> (\<exists>q. post = 59 # q
                \<and> assigned (toLowerCase q) (str ''font-weight'') = None))
         \<and> 58 \<notin> set w \<and> 59 \<notin> set w
         \<longrightarrow> assigned (toLowerCase (attrOrEmpty el (str ''style''))) (str ''font-weight'')
               = Some (trim (toLowerCase w)))
   \<and> (\<forall>v\<in>set (map str [''bold'', ''600'', ''700'', ''800'', ''900'']). v \<noteq> [] \<and> reBold v)
   \<and> \<not> reBold (str ''650'')
   \<and> (isBoldLike el \<and> \<not> dispatchedByTag (tagName el) \<longrightarrow>
         (\<forall>B ctx. renderNode B el ctx
            = wrapIf (isStrikeLike el) (str ''~~'') (wrapIf (isItalicLike el) (str ''*'')
                (str ''**'' @ renderInlineChildren B el ctx @ str ''**''))))"
proof -
  have c1: "isBoldLike el \<longleftrightarrow>
      tagName el = str ''B'' \<or> tagName el = str ''STRONG''
      \<or> (\<exists>v. assigned (toLowerCase (attrOrEmpty el (str ''style''))) (str ''font-weight'') = Some v
             \<and> v \<noteq> [] \<and> reBold v)"
    by (rule isBoldLike_assigned)
  have c2: "\<forall>pre w post.
         attrOrEmpty el (str ''style'') = pre @ str ''font-weight:'' @ w @ post
         \<and> (pre = [] \<or> last pre = 59)
         \<and> (post = [] \<or> (\<exists>q. post = 59 # q
                \<and> assigned (toLowerCase q) (str ''font-weight'') = None))
         \<and> 58 \<notin> set w \<and> 59 \<notin> set w
         \<longrightarrow> assigned (toLowerCase (attrOrEmpty el (str ''style''))) (str ''font-weight'')
               = Some (trim (toLowerCase w))"
    using assigned_font_weight by simp
  have c3: "\<forall>v\<in>set (map str [''bold'', ''600'', ''700'', ''800'', ''900'']). v \<noteq> [] \<and> reBold v"
    using reBold_values by blast
  have c4: "\<not> reBold (str ''650'')" by (rule not_reBold_650)
  have c5: "isBoldLike el \<and> \<not> dispatchedByTag (tagName el) \<longrightarrow>
         (\<forall>B ctx. renderNode B el ctx
            = wrapIf (isStrikeLike el) (str ''~~'') (wrapIf (isItalicLike el) (str ''*'')
                (str ''**'' @ renderInlineChildren B el ctx @ str ''**'')))"
  proof (intro impI allI)
    fix B and ctx :: ctx
    assume a: "isBoldLike el \<and> \<not> dispatchedByTag (tagName el)"
    then obtain tag attrs kids where el: "el = Element tag attrs kids"
      using isBoldLike_element by blast
    with a have d: "\<not> dispatchedByTag tag" by simp
    from emphasis_render [OF d el] a
    show "renderNode B el ctx
        = wrapIf (isStrikeLike el) (str ''~~'') (wrapIf (isItalicLike el) (str ''*'')
            (str ''**'' @ renderInlineChildren B el ctx @ str ''**''))"
      by (simp add: wrapIf_def)
  qed
  show ?thesis by (intro conjI) (rule c1 c2 c3 c4 c5)+
qed

lemma SPAN_red_bold_example:
  "\<not> isItalicLike (Element (str ''SPAN'') [(str ''style'', str ''color:red;font-weight:bold'')] kids)"
  "\<not> isStrikeLike (Element (str ''SPAN'') [(str ''style'', str ''color:red;font-weight:bold'')] kids)"
  "\<not> dispatchedByTag (str ''SPAN'')"
  by (simp_all add: isItalicLike_def isStrikeLike_def styleHas_def styleMap_def
      toLowerCase_def lowerUnit_def str_def trim_def isSpace_def dispatchedByTag_def isHeading_def)

theorem font_weight_bold_witness:
  "isBoldLike (Element (str ''SPAN'') [(str ''style'', str ''color:red;font-weight:bold'')]
       [Text (str ''x'')])
   \<and> renderNode (browserFor [] [])
        (Element (str ''SPAN'') [(str ''style'', str ''color:red;font-weight:bold'')]
           [Text (str ''x'')])
        (initialCtx \<lparr>baseUrl = None\<rparr>) = str ''**x**''"
proof -
  let ?el = "Element (str ''SPAN'') [(str ''style'', str ''color:red;font-weight:bold'')]
       [Text (str ''x'')]"
  note fw = font_weight_bold [of ?el]
  have s: "attrOrEmpty ?el (str ''style'') = str ''color:red;'' @ str ''font-weight:'' @ str ''bold'' @ []"
    by (simp add: attrOrEmpty_def str_def)
  have h: "str ''color:red;'' = [] \<or> last (str ''color:red;'') = 59"
    "58 \<notin> set (str ''bold'')" "59 \<notin> set (str ''bold'')"
    by (simp_all add: str_def)
  have v: "trim (toLowerCase (str ''bold'')) = str ''bold''"
    by (simp add: str_def toLowerCase_def lowerUnit_def trim_def isSpace_def)
  have m: "str ''bold'' \<in> set (map str [''bold'', ''600'', ''700'', ''800'', ''900''])"
    by simp
  from fw s h have "assigned (toLowerCase (attrOrEmpty ?el (str ''style''))) (str ''font-weight'')
      = Some (trim (toLowerCase (str ''bold'')))"
    by blast
  moreover from fw m have "str ''bold'' \<noteq> [] \<and> reBold (str ''bold'')" by blast
  ultimately have b: "isBoldLike ?el"
    using fw unfolding v by blast
  have t: "tagName ?el = str ''SPAN''" by simp
  have r: "renderInlineChildren (browserFor [] []) ?el (initialCtx \<lparr>baseUrl = None\<rparr>) = str ''x''"
    by (simp add: render_simps string_evals)
  have e: "str ''**'' @ str ''x'' @ str ''**'' = str ''**x**''"
    by (simp add: str_def)
  from fw b SPAN_red_bold_example(3)
  have "renderNode (browserFor [] []) ?el (initialCtx \<lparr>baseUrl = None\<rparr>)
      = wrapIf (isStrikeLike ?el) (str ''~~'') (wrapIf (isItalicLike ?el) (str ''*'')
          (str ''**'' @ renderInlineChildren (browserFor [] []) ?el (initialCtx \<lparr>baseUrl = None\<rparr>)
            @ str ''**''))"
    unfolding t by blast
  with b show ?thesis
    using SPAN_red_bold_example(1,2) [of "[Text (str ''x'')]"]
    by (simp only: wrapIf_def r e simp_thms if_False)
qed

lemma isBoldLike_650:
  "\<not> isBoldLike (Element (str ''SPAN'') [(str ''style'', str ''font-weight: 650'')] kids)"
  apply (simp add: isBoldLike_def styleHas_def)
  apply (subst styleMap_font_weight [where w = "str '' 650''"])
     apply (simp_all add: str_def)
  apply (simp add: toLowerCase_def lowerUnit_def trim_def isSpace_def reBold_def includesStr_def sublist_code str_def)
  done

lemma SPAN_650_example:
  "\<not> isItalicLike (Element (str ''SPAN'') [(str ''style'', str ''font-weight: 650'')] kids)"
  "\<not> isStrikeLike (Element (str ''SPAN'') [(str ''style'', str ''font-weight: 650'')] kids)"
  "\<not> isBlock (Element (str ''SPAN'') [(str ''style'', str ''font-weight: 650'')] kids)"
  by (simp_all add: isItalicLike_def isStrikeLike_def styleHas_def styleMap_def
      toLowerCase_def lowerUnit_def str_def trim_def isSpace_def isBlock_def blockTags_def)

text \<open>
  C4 as stated fails at its own example: with \<open>font-weight: 650\<close> the value has neither
  \<open>bold\<close> nor a digit from 6 to 9 followed by two zeros in it, the element is not classified
  as bold, and a \<open>span\<close> with that style renders as its bare content.
\<close>

theorem font_weight_bold_counterexample:
  "\<not> isBoldLike (Element (str ''SPAN'') [(str ''style'', str ''font-weight: 650'')]
        [Text (str ''x'')])
   \<and> renderNode (browserFor [] [])
        (Element (str ''SPAN'') [(str ''style'', str ''font-weight: 650'')] [Text (str ''x'')])
        (initialCtx \<lparr>baseUrl = None\<rparr>) = str ''x''"
proof -
  let ?el = "Element (str ''SPAN'') [(str ''style'', str ''font-weight: 650'')] [Text (str ''x'')]"
  have r: "renderInlineChildren (browserFor [] []) ?el (initialCtx \<lparr>baseUrl = None\<rparr>) = str ''x''"
    by (simp add: render_simps string_evals)
  show ?thesis
    using isBoldLike_650 [of "[Text (str ''x'')]"] SPAN_650_example [of "[Text (str ''x'')]"] r
    by (simp only: renderNode_undispatched [OF SPAN_red_bold_example(3)] Let_def simp_thms if_False)
qed

lemma ordered_list_example:
  "renderNode B (Element (str ''OL'') []
       [Element (str ''LI'') [] [Text (str ''x'')], Element (str ''LI'') [] [Text (str ''y'')]])
     (initialCtx opts) = str ''\<newline>1. x\<newline>2. y\<newline>\<newline>''"
  by (simp add: list_evals string_evals)

lemma ordered_list_single_example:
  "renderNode B (Element (str ''OL'') [] [Element (str ''LI'') [] [Text (str ''x'')]])
     (initialCtx opts) = str ''\<newline>1. x\<newline>\<newline>''"
  "renderNode B (Element (str ''OL'') [] [Element (str ''LI'') [] [Text (str ''y'')]])
     (initialCtx opts) = str ''\<newline>1. y\<newline>\<newline>''"
  by (simp_all add: list_evals string_evals)

lemma htmlToMarkdown_OL_example:
  "htmlToMarkdown
     (browserFor (str ''<ol><li>x</li><li>y</li></ol>'')
        [Element (str ''OL'') []
           [Element (str ''LI'') [] [Text (str ''x'')], Element (str ''LI'') [] [Text (str ''y'')]]])
     (str ''<ol><li>x</li><li>y</li></ol>'') \<lparr>baseUrl = None\<rparr>
   = str ''1. x\<newline>2. y\<newline>''"
  apply (subst htmlToMarkdown_browserFor)
    apply (simp add: str_def)
   apply (simp add: str_def trim_def isSpace_def)
  apply (simp only: list.map concat.simps append_Nil2 ordered_list_example)
  apply (simp add: finish_def string_evals)
  done

lemma htmlToMarkdown_two_OL_example:
  "htmlToMarkdown
     (browserFor (str ''<ol><li>x</li></ol><ol><li>y</li></ol>'')
        [Element (str ''OL'') [] [Element (str ''LI'') [] [Text (str ''x'')]],
         Element (str ''OL'') [] [Element (str ''LI'') [] [Text (str ''y'')]]])
     (str ''<ol><li>x</li></ol><ol><li>y</li></ol>'') \<lparr>baseUrl = None\<rparr>
   = str ''1. x\<newline>\<newline>1. y\<newline>''"
  apply (subst htmlToMarkdown_browserFor)
    apply (simp add: str_def)
   apply (simp add: str_def trim_def isSpace_def)
  apply (simp only: list.map concat.simps append_Nil2 ordered_list_single_example)
  apply (simp add: finish_def string_evals)
  done

text \<open>
  C7. In an ordered list the loop of \<open>renderList\<close> gives the \<open>n\<close>-th direct \<open>li\<close> child, in
  document order, the text \<open>listItemText\<close> for the number \<open>n\<close>, counting from 1, whatever
  the context holds; that text begins with the indentation and the bullet \<open>n. \<close>. So
  \<open><ol><li>x</li><li>y</li></ol>\<close> renders as \<open>1. x\<close>, \<open>2. y\<close>, and a second sibling \<open>ol\<close>
  starts at 1 again.
\<close>

theorem ordered_list_numbering:
  "renderList B el ctx True
     = joinWith [10] (map (\<lambda>(n, li). listItemText B ctx True n li)
         (zip [1..<Suc (length (listItems el))] (listItems el)))
   \<and> (\<forall>n li. prefix (repeat (str ''  '') (listDepth ctx) @ showNat n @ str ''. '')
                 (listItemText B ctx True n li))
   \<and> htmlToMarkdown
        (browserFor (str ''<ol><li>x</li><li>y</li></ol>'')
           [Element (str ''OL'') []
              [Element (str ''LI'') [] [Text (str ''x'')], Element (str ''LI'') [] [Text (str ''y'')]]])
        (str ''<ol><li>x</li><li>y</li></ol>'') \<lparr>baseUrl = None\<rparr>
      = str ''1. x\<newline>2. y\<newline>''
   \<and> htmlToMarkdown
        (browserFor (str ''<ol><li>x</li></ol><ol><li>y</li></ol>'')
           [Element (str ''OL'') [] [Element (str ''LI'') [] [Text (str ''x'')]],
            Element (str ''OL'') [] [Element (str ''LI'') [] [Text (str ''y'')]]])
        (str ''<ol><li>x</li></ol><ol><li>y</li></ol>'') \<lparr>baseUrl = None\<rparr>
      = str ''1. x\<newline>\<newline>1. y\<newline>''"
proof (intro conjI allI)
  show "renderList B el ctx True
     = joinWith [10] (map (\<lambda>(n, li). listItemText B ctx True n li)
         (zip [1..<Suc (length (listItems el))] (listItems el)))"
    by (rule renderList_items)
next
  fix n li
  show "prefix (repeat (str ''  '') (listDepth ctx) @ showNat n @ str ''. '')
          (listItemText B ctx True n li)"
    using listItemText_bullet [of ctx True n B li] by simp
qed (rule htmlToMarkdown_OL_example htmlToMarkdown_two_OL_example)+

theorem ordered_list_numbering_witness:
  "renderList (browserFor [] [])
     (Element (str ''OL'') []
        [Element (str ''LI'') [] [Text (str ''a'')], Text (str '' ''),
         Element (str ''LI'') [] [Text (str ''b'')], Element (str ''LI'') [] [Text (str ''c'')]])
     (initialCtx \<lparr>baseUrl = None\<rparr>) True
   = str ''1. a\<newline>2. b\<newline>3. c''"
proof -
  let ?el = "Element (str ''OL'') []
        [Element (str ''LI'') [] [Text (str ''a'')], Text (str '' ''),
         Element (str ''LI'') [] [Text (str ''b'')], Element (str ''LI'') [] [Text (str ''c'')]]"
  from ordered_list_numbering [of "browserFor [] []" ?el "initialCtx \<lparr>baseUrl = None\<rparr>"]
  have "renderList (browserFor [] []) ?el (initialCtx \<lparr>baseUrl = None\<rparr>) True
     = joinWith [10] (map (\<lambda>(n, li). listItemText (browserFor [] []) (initialCtx \<lparr>baseUrl = None\<rparr>) True n li)
         (zip [1..<Suc (length (listItems ?el))] (listItems ?el)))"
    by (rule conjunct1)
  also have "\<dots> = str ''1. a\<newline>2. b\<newline>3. c''"
    by (simp add: list_evals string_evals upt_rec)
  finally show ?thesis .
qed

lemma nested_list_example:
  "renderNode B (Element (str ''UL'') []
       [Element (str ''LI'') [] [Text (str ''a'')],
        Element (str ''LI'') []
          [Text (str ''b''), Element (str ''UL'') [] [Element (str ''LI'') [] [Text (str ''c'')]]]])
     (initialCtx opts)
   = str ''\<newline>- a\<newline>- b\<newline>  \<newline>    - c\<newline>\<newline>''"
  by (simp add: list_evals string_evals)

lemma htmlToMarkdown_nested_list_example:
  "htmlToMarkdown
     (browserFor (str ''<ul><li>a</li><li>b<ul><li>c</li></ul></li></ul>'')
        [Element (str ''UL'') []
           [Element (str ''LI'') [] [Text (str ''a'')],
            Element (str ''LI'') []
              [Text (str ''b''),
               Element (str ''UL'') [] [Element (str ''LI'') [] [Text (str ''c'')]]]]])
     (str ''<ul><li>a</li><li>b<ul><li>c</li></ul></li></ul>'') \<lparr>baseUrl = None\<rparr>
   = str ''- a\<newline>- b\<newline>  \<newline>    - c\<newline>''"
  apply (subst htmlToMarkdown_browserFor)
    apply (simp add: str_def)
   apply (simp add: str_def trim_def isSpace_def)
  apply (simp only: list.map concat.simps append_Nil2 nested_list_example)
  apply (simp add: finish_def string_evals)
  done

text \<open>
  C1. The input \<open><ul><li>a</li><li>b<ul><li>c</li></ul></li></ul>\<close> does not render as
  the three lines \<open>- a\<close>, \<open>- b\<close> and \<open>- c\<close> behind two spaces. \<open>renderList\<close> indents
  the nested list by its own depth, and the enclosing item indents every line after its
  first by two more spaces; \<open>renderListItem\<close> joins the text of the item and the nested
  list, which begins with a line feed, with one more line feed. The output is \<open>- a\<close>,
  \<open>- b\<close>, a line of two spaces, and \<open>- c\<close> behind four spaces.
\<close>

theorem nested_list_output:
  "htmlToMarkdown
     (browserFor (str ''<ul><li>a</li><li>b<ul><li>c</li></ul></li></ul>'')
        [Element (str ''UL'') []
           [Element (str ''LI'') [] [Text (str ''a'')],
            Element (str ''LI'') []
              [Text (str ''b''),
               Element (str ''UL'') [] [Element (str ''LI'') [] [Text (str ''c'')]]]]])
     (str ''<ul><li>a</li><li>b<ul><li>c</li></ul></li></ul>'') \<lparr>baseUrl = None\<rparr>
   = str ''- a\<newline>- b\<newline>  \<newline>    - c\<newline>''
   \<and> str ''- a\<newline>- b\<newline>  \<newline>    - c\<newline>'' \<noteq> str ''- a\<newline>- b\<newline>  - c\<newline>''"
  by (simp only: htmlToMarkdown_nested_list_example) (simp add: str_def)

text \<open>
  C3, as amended. \<open>renderTable\<close> emits the header row, then a separator row with one bare
  \<open>---\<close> for each column of the header, then the body rows; nothing is emitted when the
  header has no cell. The header and the separator have the same number of columns. Every
  body row is emitted with as many columns as its own \<open>tr\<close> has \<open>td\<close> and \<open>th\<close> cells: it is
  neither padded nor cut to the header's count.
\<close>

theorem table_columns:
  "renderTable B table ctx =
     (if tableHead B table ctx = [] then []
      else joinWith [10] (map rowLine
             (tableHead B table ctx # replicate (length (tableHead B table ctx)) (str ''---'')
              # tableBody B table ctx)))
   \<and> length (tableHead B table ctx)
     = (case headerRow table of None \<Rightarrow> 0 | Some tr \<Rightarrow> length (rowCells tr))
   \<and> map length (tableBody B table ctx) = map (\<lambda>tr. length (rowCells tr)) (bodyRows table)"
  by (simp add: renderTable_closed tableHead_def tableBody_def cellTexts_def split: option.splits)

lemma short_row_table:
  "tableRows (Element (str ''TABLE'') []
       [Element (str ''TBODY'') []
          [Element (str ''TR'') []
             [Element (str ''TD'') [] [Text (str ''A'')], Element (str ''TD'') [] [Text (str ''B'')]],
           Element (str ''TR'') [] [Element (str ''TD'') [] [Text (str ''1'')]]]])
   = [Element (str ''TR'') []
        [Element (str ''TD'') [] [Text (str ''A'')], Element (str ''TD'') [] [Text (str ''B'')]],
      Element (str ''TR'') [] [Element (str ''TD'') [] [Text (str ''1'')]]]"
  by (simp add: tableRows_def querySelector_def matchesType_def upperAscii_def collectRows_def children_def str_def)

lemma short_row_table_cells:
  "cellTexts B ctx (Element (str ''TR'') []
       [Element (str ''TD'') [] [Text (str ''A'')], Element (str ''TD'') [] [Text (str ''B'')]])
     = [str ''A'', str ''B'']"
  "cellTexts B ctx (Element (str ''TR'') [] [Element (str ''TD'') [] [Text (str ''1'')]])
     = [str ''1'']"
  "\<not> hasHeaderCell (Element (str ''TR'') []
       [Element (str ''TD'') [] [Text (str ''A'')], Element (str ''TD'') [] [Text (str ''B'')]])"
  "\<not> hasHeaderCell (Element (str ''TR'') [] [Element (str ''TD'') [] [Text (str ''1'')]])"
  by (simp_all add: cellTexts_def hasHeaderCell_def rowCells_def children_def cellText_def
      collapseWhitespace_def renderInlineChildren.simps renderNode.simps(1) string_evals)

lemma short_row_table_render:
  "renderTable B (Element (str ''TABLE'') []
       [Element (str ''TBODY'') []
          [Element (str ''TR'') []
             [Element (str ''TD'') [] [Text (str ''A'')], Element (str ''TD'') [] [Text (str ''B'')]],
           Element (str ''TR'') [] [Element (str ''TD'') [] [Text (str ''1'')]]]]) ctx
   = joinWith [10] (map rowLine [[str ''A'', str ''B''], [str ''---'', str ''---''], [str ''1'']])"
  by (simp only: renderTable_closed tableHead_def tableBody_def headerRow_def bodyRows_def
      short_row_table)
    (simp add: short_row_table_cells)

theorem table_columns_witness:
  "map length (tableBody (browserFor [] [])
       (Element (str ''TABLE'') []
          [Element (str ''TBODY'') []
             [Element (str ''TR'') []
                [Element (str ''TD'') [] [Text (str ''A'')], Element (str ''TD'') [] [Text (str ''B'')]],
              Element (str ''TR'') [] [Element (str ''TD'') [] [Text (str ''1'')]]]])
       (initialCtx \<lparr>baseUrl = None\<rparr>)) = [1]"
proof -
  let ?t = "Element (str ''TABLE'') []
          [Element (str ''TBODY'') []
             [Element (str ''TR'') []
                [Element (str ''TD'') [] [Text (str ''A'')], Element (str ''TD'') [] [Text (str ''B'')]],
              Element (str ''TR'') [] [Element (str ''TD'') [] [Text (str ''1'')]]]]"
  from table_columns [of "browserFor [] []" ?t "initialCtx \<lparr>baseUrl = None\<rparr>"]
  have "map length (tableBody (browserFor [] []) ?t (initialCtx \<lparr>baseUrl = None\<rparr>))
      = map (\<lambda>tr. length (rowCells tr)) (bodyRows ?t)"
    by blast
  also have "\<dots> = [1]"
    apply (simp only: bodyRows_def short_row_table)
    apply (simp add: short_row_table_cells)
    apply (simp add: rowCells_def children_def str_def)
    done
  finally show ?thesis .
qed

text \<open>
  C3 as stated fails: a table whose first row has two cells and whose second row has one
  renders as \<open>| A | B |\<close>, \<open>| --- | --- |\<close>, \<open>| 1 |\<close>; the last row has one column, the
  header two.
\<close>

theorem table_columns_counterexample:
  "renderTable (browserFor [] [])
     (Element (str ''TABLE'') []
        [Element (str ''TBODY'') []
           [Element (str ''TR'') []
              [Element (str ''TD'') [] [Text (str ''A'')], Element (str ''TD'') [] [Text (str ''B'')]],
            Element (str ''TR'') [] [Element (str ''TD'') [] [Text (str ''1'')]]]])
     (initialCtx \<lparr>baseUrl = None\<rparr>)
   = str ''| A | B |\<newline>| --- | --- |\<newline>| 1 |''"
  by (simp only: short_row_table_render) (simp add: rowLine_def str_def)

text \<open>
  C5, as amended. A text node renders as its text (whitespace runs collapsed) with a
  backslash put before every backslash, asterisk, underscore, backtick, hash, bar,
  greater-than and hyphen. A \<open>code\<close> element renders as its text content, unchanged, between
  one or two backticks. A \<open>pre\<close> element renders as a fence line, then its text, then the
  closing fence; in that text every carriage return (with a line feed after it, if any) has
  become one line feed, and nothing else is changed: no character is escaped, and the text
  stands as it is when it holds no carriage return. The output of \<open>htmlToMarkdown\<close> is the
  concatenation of what the top-level nodes render to, passed as a whole through
  \<open>trimBlankLines\<close>, \<open>normalizeLines\<close> and \<open>trim\<close>: runs of three or more line feeds
  shrink to two inside code as well.
\<close>

theorem escaping_and_code:
  "renderNode B (Text t) ctx
     = concat (map (\<lambda>c. if c = 92 \<or> c = 42 \<or> c = 95 \<or> c = 96 \<or> c = 35 \<or> c = 124 \<or> c = 62
                            \<or> c = 45 then [92, c] else [c])
         (replaceRuns isSpace (\<lambda>m. if 10 \<in> set m then [10] else [32]) t))
   \<and> renderNode B (Element (str ''CODE'') attrs kids) ctx
     = (if 96 \<in> set (textContentOf (Element (str ''CODE'') attrs kids)) then [96, 96] else [96])
       @ textContentOf (Element (str ''CODE'') attrs kids)
       @ (if 96 \<in> set (textContentOf (Element (str ''CODE'') attrs kids)) then [96, 96] else [96])
   \<and> (\<exists>fence info.
        renderNode B (Element (str ''PRE'') attrs kids) ctx
          = [10, 10] @ fence @ info @ [10]
            @ normalizeEol (preText (Element (str ''PRE'') attrs kids))
            @ (if normalizeEol (preText (Element (str ''PRE'') attrs kids)) \<noteq> []
                  \<and> last (normalizeEol (preText (Element (str ''PRE'') attrs kids))) = 10
               then [] else [10])
            @ fence @ [10, 10]
        \<and> (fence = str ''```'' \<or> fence = str ''````'')
        \<and> 10 \<notin> set info)
   \<and> (13 \<notin> set (preText (Element (str ''PRE'') attrs kids)) \<longrightarrow>
        normalizeEol (preText (Element (str ''PRE'') attrs kids))
          = preText (Element (str ''PRE'') attrs kids))
   \<and> filter (\<lambda>c. c \<noteq> 13 \<and> c \<noteq> 10) (normalizeEol (preText (Element (str ''PRE'') attrs kids)))
     = filter (\<lambda>c. c \<noteq> 13 \<and> c \<noteq> 10) (preText (Element (str ''PRE'') attrs kids))
   \<and> (html \<noteq> [] \<and> \<not> (\<forall>c\<in>set html. isSpace c) \<and> parseRoot B (wrapHtml html) = Some root \<longrightarrow>
        htmlToMarkdown B html opts
          = trim (normalizeLines (trimBlankLines
              (concat (map (\<lambda>child. renderNode B child (initialCtx opts)) (childNodes root)))))
            @ [10])"
proof (intro conjI impI)
  show "renderNode B (Text t) ctx
     = concat (map (\<lambda>c. if c = 92 \<or> c = 42 \<or> c = 95 \<or> c = 96 \<or> c = 35 \<or> c = 124 \<or> c = 62
                            \<or> c = 45 then [92, c] else [c])
         (replaceRuns isSpace (\<lambda>m. if 10 \<in> set m then [10] else [32]) t))"
    by (simp add: renderNode.simps(1) escapeMd_each isMdSpecial_def)
next
  show "renderNode B (Element (str ''CODE'') attrs kids) ctx
     = (if 96 \<in> set (textContentOf (Element (str ''CODE'') attrs kids)) then [96, 96] else [96])
       @ textContentOf (Element (str ''CODE'') attrs kids)
       @ (if 96 \<in> set (textContentOf (Element (str ''CODE'') attrs kids)) then [96, 96] else [96])"
    by (simp add: renderNode_CODE Let_def)
next
  let ?el = "Element (str ''PRE'') attrs kids"
  let ?text = "normalizeEol (preText ?el)"
  let ?lang = "case querySelector ?el (str ''code'') of None \<Rightarrow> None | Some c \<Rightarrow> getCodeLang c"
  let ?fence = "if includesStr ?text (str ''```'') then str ''````'' else str ''```''"
  let ?info = "case ?lang of None \<Rightarrow> [] | Some l \<Rightarrow> if l \<noteq> [] then 32 # l else []"
  have body: "(if ?text \<noteq> [] \<and> last ?text = 10 then butlast ?text else ?text) @ [10]
      = ?text @ (if ?text \<noteq> [] \<and> last ?text = 10 then [] else [10])"
  proof (cases "?text \<noteq> [] \<and> last ?text = 10")
    case True
    then have "butlast ?text @ [10] = ?text"
      by (metis append_butlast_last_id)
    with True show ?thesis by simp
  next
    case False
    then show ?thesis by auto
  qed
  have "renderNode B ?el ctx = [10, 10] @ ?fence @ ?info @ [10] @ ?text
          @ (if ?text \<noteq> [] \<and> last ?text = 10 then [] else [10]) @ ?fence @ [10, 10]"
    using body by (simp add: renderNode_PRE codeFence_def Let_def split: option.splits)
  moreover have "?fence = str ''```'' \<or> ?fence = str ''````''" by simp
  moreover have "10 \<notin> set ?info"
    by (auto split: option.splits dest: getCodeLang_chars [OF sym])
  ultimately show "\<exists>fence info.
        renderNode B ?el ctx
          = [10, 10] @ fence @ info @ [10] @ ?text
            @ (if ?text \<noteq> [] \<and> last ?text = 10 then [] else [10]) @ fence @ [10, 10]
        \<and> (fence = str ''```'' \<or> fence = str ''````'')
        \<and> 10 \<notin> set info"
    by blast
next
  assume "13 \<notin> set (preText (Element (str ''PRE'') attrs kids))"
  then show "normalizeEol (preText (Element (str ''PRE'') attrs kids))
          = preText (Element (str ''PRE'') attrs kids)"
    by (rule normalizeEol_no_cr)
next
  show "filter (\<lambda>c. c \<noteq> 13 \<and> c \<noteq> 10) (normalizeEol (preText (Element (str ''PRE'') attrs kids)))
     = filter (\<lambda>c. c \<noteq> 13 \<and> c \<noteq> 10) (preText (Element (str ''PRE'') attrs kids))"
    by (rule normalizeEol_keeps)
next
  assume a: "html \<noteq> [] \<and> \<not> (\<forall>c\<in>set html. isSpace c) \<and> parseRoot B (wrapHtml html) = Some root"
  then have "trim html \<noteq> []" by (simp add: trim_empty_iff)
  with a show "htmlToMarkdown B html opts
          = trim (normalizeLines (trimBlankLines
              (concat (map (\<lambda>child. renderNode B child (initialCtx opts)) (childNodes root)))))
            @ [10]"
    by (simp add: htmlToMarkdown_parsed finish_def)
qed

theorem escaping_and_code_witness:
  "renderNode (browserFor [] []) (Text (str ''a*b'')) (initialCtx \<lparr>baseUrl = None\<rparr>)
     = [97, 92, 42, 98]
   \<and> renderNode (browserFor [] []) (Element (str ''CODE'') [] [Text (str ''a*b'')])
       (initialCtx \<lparr>baseUrl = None\<rparr>) = str ''`a*b`''"
proof -
  from escaping_and_code [where B = "browserFor [] []" and t = "str ''a*b''"
      and ctx = "initialCtx \<lparr>baseUrl = None\<rparr>" and attrs = "[]" and kids = "[Text (str ''a*b'')]"]
  have "renderNode (browserFor [] []) (Text (str ''a*b'')) (initialCtx \<lparr>baseUrl = None\<rparr>)
     = concat (map (\<lambda>c. if c = 92 \<or> c = 42 \<or> c = 95 \<or> c = 96 \<or> c = 35 \<or> c = 124 \<or> c = 62
                            \<or> c = 45 then [92, c] else [c])
         (replaceRuns isSpace (\<lambda>m. if 10 \<in> set m then [10] else [32]) (str ''a*b'')))"
    and "renderNode (browserFor [] []) (Element (str ''CODE'') [] [Text (str ''a*b'')])
       (initialCtx \<lparr>baseUrl = None\<rparr>)
     = (if 96 \<in> set (textContentOf (Element (str ''CODE'') [] [Text (str ''a*b'')]))
        then [96, 96] else [96])
       @ textContentOf (Element (str ''CODE'') [] [Text (str ''a*b'')])
       @ (if 96 \<in> set (textContentOf (Element (str ''CODE'') [] [Text (str ''a*b'')]))
          then [96, 96] else [96])"
    by blast+
  moreover have "concat (map (\<lambda>c. if c = 92 \<or> c = 42 \<or> c = 95 \<or> c = 96 \<or> c = 35 \<or> c = 124
                            \<or> c = 62 \<or> c = 45 then [92, c] else [c])
         (replaceRuns isSpace (\<lambda>m. if 10 \<in> set m then [10] else [32]) (str ''a*b'')))
      = [97, 92, 42, 98]"
    by (simp add: str_def isSpace_def)
  moreover have "(if 96 \<in> set (textContentOf (Element (str ''CODE'') [] [Text (str ''a*b'')]))
        then [96, 96] else [96])
       @ textContentOf (Element (str ''CODE'') [] [Text (str ''a*b'')])
       @ (if 96 \<in> set (textContentOf (Element (str ''CODE'') [] [Text (str ''a*b'')]))
          then [96, 96] else [96]) = str ''`a*b`''"
    by (simp add: str_def)
  ultimately show ?thesis by simp
qed

text \<open>
  C5 as stated fails: the text of a \<open>pre\<close> element with three line feeds in a row is not
  in the output as it is; the output has two line feeds there.
\<close>

theorem escaping_and_code_counterexample:
  "textContentOf (Element (str ''PRE'') [] [Text (str ''a\<newline>\<newline>\<newline>b'')]) = str ''a\<newline>\<newline>\<newline>b''
   \<and> htmlToMarkdown
       (browserFor (str ''<pre>a\<newline>\<newline>\<newline>b</pre>'')
          [Element (str ''PRE'') [] [Text (str ''a\<newline>\<newline>\<newline>b'')]])
       (str ''<pre>a\<newline>\<newline>\<newline>b</pre>'') \<lparr>baseUrl = None\<rparr>
     = str ''```\<newline>a\<newline>\<newline>b\<newline>```\<newline>''
   \<and> \<not> includesStr (str ''```\<newline>a\<newline>\<newline>b\<newline>```\<newline>'') (str ''a\<newline>\<newline>\<newline>b'')"
  by (simp only: htmlToMarkdown_PRE_example) (simp add: str_def includesStr_def sublist_code)

text \<open>
  The same for a carriage return: the text \<open>a\<close>, carriage return, \<open>b\<close> of a \<open>pre\<close> element
  is emitted as \<open>a\<close>, line feed, \<open>b\<close>.
\<close>

lemma pre_carriage_return_example:
  "renderNode B (Element (str ''PRE'') [] [Text [97, 13, 98]]) ctx
     = str ''\<newline>\<newline>```\<newline>a\<newline>b\<newline>```\<newline>\<newline>''"
  by (subst renderNode_PRE)
    (simp add: preText_def querySelector_def matchesType_def upperAscii_def codeFence_def string_evals)

end
